theory Spec2Isabelle
  imports Main
begin

unbundle bit_operations_syntax

section \<open>The DBM queue store of CoilMQ (coilmq/store/dbm.py)\<close>

text \<open>
  The store keeps two dictionaries: \<open>queue_metadata\<close>, from a destination to its
  entry (a deque of message ids and three counters), and \<open>frame_store\<close>, from a
  message id to the frame. Both are modelled by their content, as maps. Every method is
  a function from the store to a result and the store after the call; a Python exception
  is the \<open>Inl\<close> result, and the store returned with it is the store as the
  exception leaves it.
\<close>

subsection \<open>Data\<close>

text \<open>
  A \<open>datetime\<close> is the number of microseconds since \<open>datetime.min\<close>
  (0001-01-01 00:00:00); \<open>datetime.max\<close> (9999-12-31 23:59:59.999999) is
  \<open>datetime_max\<close>. A \<open>timedelta\<close> is a number of microseconds too.
\<close>

type_synonym time = int

definition datetime_max :: time where
  "datetime_max = 315537897599999999"

datatype error =
    ValueError string
  | KeyError string
  | IndexError string
  | ConfigError string
  | OverflowError string
  | DbmError string

text \<open>
  A frame, as far as the store looks at it: its \<open>message_id\<close> (absent, empty or a
  string) and the rest of it.
\<close>

record frame =
  message_id :: "string option"
  body :: string

text \<open>
  The dictionary made at line 145:
  \<^verbatim>\<open>{'frames': deque(), 'enqueued': 0, 'dequeued': 0, 'size': 0}\<close>.
  The deque is a list whose head is the left end.
\<close>

record qentry =
  frames :: "string list"
  enqueued :: int
  dequeued :: int
  size_field :: int

text \<open>
  The instance variables of \<open>DbmQueue\<close>. \<open>sync_calls\<close> counts the calls of
  \<open>queue_metadata.sync()\<close>, the one effect of the class outside its own fields.
\<close>

record DbmQueue =
  data_dir :: string
  opcount :: int
  last_sync :: time
  checkpoint_operations :: int
  checkpoint_timeout :: int
  queue_metadata :: "string \<rightharpoonup> qentry"
  frame_store :: "string \<rightharpoonup> frame"
  sync_calls :: nat

text \<open>
  What \<open>make_dbm\<close> and \<open>__init__\<close> see of the operating system: what is at a
  path (nothing, a regular file or a directory), which access bits the process holds on
  it, whether the dbm library can open a shelf under a file name (given that the
  directory is there), what the two shelves under a file name contain, and the list of
  the shelves opened so far.
\<close>

datatype path_kind = Absent | RegularFile | Directory

record os_env =
  path_kind :: "string \<Rightarrow> path_kind"
  path_perms :: "string \<Rightarrow> nat"
  dbm_openable :: "string \<Rightarrow> bool"
  shelf_metadata :: "string \<Rightarrow> (string \<rightharpoonup> qentry)"
  shelf_frames :: "string \<Rightarrow> (string \<rightharpoonup> frame)"
  opened :: "string list"

text \<open>
  The three values \<open>make_dbm\<close> reads with \<open>config.get\<close> (the configuration
  module is not part of the file).
\<close>

record config =
  store_dbm_data_dir :: "string option"
  store_dbm_checkpoint_operations :: "int option"
  store_dbm_checkpoint_timeout :: "int option"

subsection \<open>Library operations the class calls\<close>

definition appendleft :: "'a \<Rightarrow> 'a list \<Rightarrow> 'a list" where
  "appendleft x d = x # d"

definition pop :: "'a list \<Rightarrow> error + ('a \<times> 'a list)" where
  "pop d = (if d = [] then Inl (IndexError ''pop from an empty deque'')
            else Inr (last d, butlast d))"

text \<open>
  \<open>timedelta(seconds=n)\<close>: a \<open>timedelta\<close> holds at most 999999999 days in either
  direction, and the constructor raises \<open>OverflowError\<close> beyond.
\<close>

definition timedelta_seconds :: "int \<Rightarrow> error + int" where
  "timedelta_seconds n =
     (if - 86399999913600 \<le> n \<and> n \<le> 86399999999999 then Inr (n * 1000000)
      else Inl (OverflowError ''days; must have magnitude <= 999999999''))"

text \<open>
  \<open>datetime + timedelta\<close> raises \<open>OverflowError\<close> when the sum is not a
  \<open>datetime\<close>.
\<close>

definition datetime_add :: "time \<Rightarrow> int \<Rightarrow> error + time" where
  "datetime_add t d =
     (if 0 \<le> t + d \<and> t + d \<le> datetime_max then Inr (t + d)
      else Inl (OverflowError ''date value out of range''))"

definition R_OK :: nat where "R_OK = 4"
definition W_OK :: nat where "W_OK = 2"

definition os_path_exists :: "os_env \<Rightarrow> string \<Rightarrow> bool" where
  "os_path_exists env p = (path_kind env p \<noteq> Absent)"

definition os_access :: "os_env \<Rightarrow> string \<Rightarrow> nat \<Rightarrow> bool" where
  "os_access env p mode = (os_path_exists env p \<and> (path_perms env p AND mode) = mode)"

definition os_path_join :: "string \<Rightarrow> string \<Rightarrow> string" where
  "os_path_join a b =
     (if a = [] then b else if last a = CHR ''/'' then a @ b else a @ ''/'' @ b)"

text \<open>
  \<open>shelve.open(os.path.join(dir, name))\<close>: the dbm library raises its error when
  \<open>dir\<close> is not a directory or the file cannot be opened; otherwise the shelf, created
  empty when it was not there, is open.
\<close>

definition shelve_open_metadata ::
  "os_env \<Rightarrow> string \<Rightarrow> string \<Rightarrow> (error + (string \<rightharpoonup> qentry)) \<times> os_env" where
  "shelve_open_metadata env dir name =
     (let p = os_path_join dir name
      in if path_kind env dir \<noteq> Directory \<or> \<not> dbm_openable env p
         then (Inl (DbmError p), env)
         else (Inr (shelf_metadata env p), env\<lparr>opened := opened env @ [p]\<rparr>))"

definition shelve_open_frames ::
  "os_env \<Rightarrow> string \<Rightarrow> string \<Rightarrow> (error + (string \<rightharpoonup> frame)) \<times> os_env" where
  "shelve_open_frames env dir name =
     (let p = os_path_join dir name
      in if path_kind env dir \<noteq> Directory \<or> \<not> dbm_openable env p
         then (Inl (DbmError p), env)
         else (Inr (shelf_frames env p), env\<lparr>opened := opened env @ [p]\<rparr>))"

subsection \<open>Construction\<close>

text \<open>
  \<open>DbmQueue.__init__\<close>, lines 107 to 126; \<open>now\<close> is the clock at line 114. An
  exception at line 118, 121 or 126 leaves no store.
\<close>

definition DbmQueue_init ::
  "os_env \<Rightarrow> time \<Rightarrow> string \<Rightarrow> int option \<Rightarrow> int option \<Rightarrow> (error + DbmQueue) \<times> os_env" where
  "DbmQueue_init env now dd cp_ops cp_timeout =
     (let ops = (case cp_ops of None \<Rightarrow> 100 | Some n \<Rightarrow> n);
          tmo = (case cp_timeout of None \<Rightarrow> 20 | Some n \<Rightarrow> n)
      in case timedelta_seconds tmo of
           Inl err \<Rightarrow> (Inl err, env)
         | Inr td \<Rightarrow>
             (case shelve_open_metadata env dd ''metadata'' of
                (Inl err, env1) \<Rightarrow> (Inl err, env1)
              | (Inr md, env1) \<Rightarrow>
                  (case shelve_open_frames env1 dd ''frames'' of
                     (Inl err, env2) \<Rightarrow> (Inl err, env2)
                   | (Inr fs, env2) \<Rightarrow>
                       (Inr \<lparr>data_dir = dd, opcount = 0, last_sync = now,
                              checkpoint_operations = ops, checkpoint_timeout = td,
                              queue_metadata = md, frame_store = fs, sync_calls = 0\<rparr>,
                        env2))))"

text \<open>\<open>make_dbm\<close>, lines 42 to 54.\<close>

definition make_dbm :: "config \<Rightarrow> os_env \<Rightarrow> time \<Rightarrow> (error + DbmQueue) \<times> os_env" where
  "make_dbm cfg env now =
     (case store_dbm_data_dir cfg of
        None \<Rightarrow> (Inl (ConfigError ''Missing configuration parameter: store.dbm.data_dir''), env)
      | Some dd \<Rightarrow>
          if dd = [] then
            (Inl (ConfigError ''Missing configuration parameter: store.dbm.data_dir''), env)
          else if \<not> os_path_exists env dd then
            (Inl (ConfigError (''DBM directory does not exist: '' @ dd)), env)
          else if \<not> os_access env dd (W_OK OR R_OK) then
            (Inl (ConfigError (''Cannot read and write DBM directory: '' @ dd)), env)
          else
            DbmQueue_init env now dd (store_dbm_checkpoint_operations cfg)
              (store_dbm_checkpoint_timeout cfg))"

subsection \<open>The methods\<close>

text \<open>
  \<open>_sync\<close>, lines 226 to 233. \<open>now_check\<close> is what \<open>datetime.now()\<close> returns
  in the condition and \<open>now_mark\<close> what it returns at line 230. The sum at line 227 is
  computed only when the first test fails, and may raise.
\<close>

definition sync :: "DbmQueue \<Rightarrow> time \<Rightarrow> time \<Rightarrow> (error + unit) \<times> DbmQueue" where
  "sync self now_check now_mark =
     (if opcount self > checkpoint_operations self
      then (Inr (), self\<lparr>sync_calls := Suc (sync_calls self), last_sync := now_mark,
                         opcount := 0\<rparr>)
      else
        case datetime_add (last_sync self) (checkpoint_timeout self) of
          Inl err \<Rightarrow> (Inl err, self)
        | Inr deadline \<Rightarrow>
            if now_check > deadline
            then (Inr (), self\<lparr>sync_calls := Suc (sync_calls self), last_sync := now_mark,
                               opcount := 0\<rparr>)
            else (Inr (), self))"

text \<open>\<open>has_frames\<close>, line 191.\<close>

definition has_frames :: "DbmQueue \<Rightarrow> string \<Rightarrow> bool" where
  "has_frames self destination =
     (case queue_metadata self destination of
        None \<Rightarrow> False
      | Some e \<Rightarrow> frames e \<noteq> [])"

text \<open>\<open>size\<close>, lines 204 to 207.\<close>

definition size_queue :: "DbmQueue \<Rightarrow> string \<Rightarrow> int" where
  "size_queue self destination =
     (case queue_metadata self destination of
        None \<Rightarrow> 0
      | Some e \<Rightarrow> int (length (frames e)))"

text \<open>
  \<open>enqueue\<close>, lines 139 to 153. Each subscript \<open>self.queue_metadata[destination]\<close>
  is a lookup that raises \<open>KeyError\<close> on a missing key.
\<close>

definition enqueue ::
  "DbmQueue \<Rightarrow> string \<Rightarrow> frame \<Rightarrow> time \<Rightarrow> time \<Rightarrow> (error + unit) \<times> DbmQueue" where
  "enqueue self destination fr now_check now_mark =
     (case message_id fr of
        None \<Rightarrow> (Inl (ValueError ''Cannot queue a frame without message-id set.''), self)
      | Some mid \<Rightarrow>
          if mid = [] then
            (Inl (ValueError ''Cannot queue a frame without message-id set.''), self)
          else
            (let s1 = (if queue_metadata self destination = None
                       then self\<lparr>queue_metadata := (queue_metadata self)(destination \<mapsto>
                              \<lparr>frames = [], enqueued = 0, dequeued = 0, size_field = 0\<rparr>)\<rparr>
                       else self)
             in case queue_metadata s1 destination of
                  None \<Rightarrow> (Inl (KeyError destination), s1)
                | Some e1 \<Rightarrow>
                    (let s2 = s1\<lparr>queue_metadata := (queue_metadata s1)(destination \<mapsto>
                                 e1\<lparr>frames := appendleft mid (frames e1)\<rparr>)\<rparr>
                     in case queue_metadata s2 destination of
                          None \<Rightarrow> (Inl (KeyError destination), s2)
                        | Some e2 \<Rightarrow>
                            (let s3 = s2\<lparr>queue_metadata := (queue_metadata s2)(destination \<mapsto>
                                         e2\<lparr>enqueued := enqueued e2 + 1\<rparr>)\<rparr>;
                                 s4 = s3\<lparr>frame_store := (frame_store s3)(mid \<mapsto> fr)\<rparr>;
                                 s5 = s4\<lparr>opcount := opcount s4 + 1\<rparr>
                             in sync s5 now_check now_mark))))"

text \<open>\<open>dequeue\<close>, lines 166 to 178.\<close>

definition dequeue ::
  "DbmQueue \<Rightarrow> string \<Rightarrow> time \<Rightarrow> time \<Rightarrow> (error + frame option) \<times> DbmQueue" where
  "dequeue self destination now_check now_mark =
     (if \<not> has_frames self destination then (Inr None, self)
      else
        case queue_metadata self destination of
          None \<Rightarrow> (Inl (KeyError destination), self)
        | Some e1 \<Rightarrow>
            (case pop (frames e1) of
               Inl err \<Rightarrow> (Inl err, self)
             | Inr (mid, rest) \<Rightarrow>
                 (let s1 = self\<lparr>queue_metadata := (queue_metadata self)(destination \<mapsto>
                              e1\<lparr>frames := rest\<rparr>)\<rparr>
                  in case queue_metadata s1 destination of
                       None \<Rightarrow> (Inl (KeyError destination), s1)
                     | Some e2 \<Rightarrow>
                         (let s2 = s1\<lparr>queue_metadata := (queue_metadata s1)(destination \<mapsto>
                                      e2\<lparr>dequeued := dequeued e2 + 1\<rparr>)\<rparr>
                          in case frame_store s2 mid of
                               None \<Rightarrow> (Inl (KeyError mid), s2)
                             | Some fr \<Rightarrow>
                                 (let s3 = s2\<lparr>frame_store := (frame_store s2)(mid := None)\<rparr>;
                                      s4 = s3\<lparr>opcount := opcount s3 + 1\<rparr>
                                  in case sync s4 now_check now_mark of
                                       (Inl err, s5) \<Rightarrow> (Inl err, s5)
                                     | (Inr u, s5) \<Rightarrow> (Inr (Some fr), s5))))))"

subsection \<open>Sequences of calls\<close>

datatype op =
    Enqueue string frame
  | Dequeue string
  | HasFrames string
  | Size string

text \<open>
  A call comes with the two readings of the clock that \<open>_sync\<close> may take during it
  (lines 227 and 230); \<open>has_frames\<close> and \<open>size\<close> take none and change nothing.
\<close>

type_synonym call = "op \<times> time \<times> time"

fun step :: "DbmQueue \<Rightarrow> call \<Rightarrow> DbmQueue" where
  "step s (Enqueue d fr, t1, t2) = snd (enqueue s d fr t1 t2)"
| "step s (Dequeue d, t1, t2) = snd (dequeue s d t1 t2)"
| "step s (HasFrames d, t1, t2) = s"
| "step s (Size d, t1, t2) = s"

definition run :: "DbmQueue \<Rightarrow> call list \<Rightarrow> DbmQueue" where
  "run s ops = foldl step s ops"

text \<open>
  A directory \<open>/data\<close> that can be read and written, with no shelf in it yet, and the
  store \<open>__init__\<close> builds there.
\<close>

definition empty_env :: os_env where
  "empty_env = \<lparr>path_kind = (\<lambda>p. if p = ''/data'' then Directory else Absent),
                 path_perms = (\<lambda>p. 7), dbm_openable = (\<lambda>p. True),
                 shelf_metadata = (\<lambda>p. Map.empty), shelf_frames = (\<lambda>p. Map.empty),
                 opened = []\<rparr>"

definition new_store :: "time \<Rightarrow> int option \<Rightarrow> int option \<Rightarrow> DbmQueue" where
  "new_store now cp_ops cp_timeout =
     \<lparr>data_dir = ''/data'', opcount = 0, last_sync = now,
      checkpoint_operations = (case cp_ops of None \<Rightarrow> 100 | Some n \<Rightarrow> n),
      checkpoint_timeout = (case cp_timeout of None \<Rightarrow> 20 | Some n \<Rightarrow> n) * 1000000,
      queue_metadata = Map.empty, frame_store = Map.empty, sync_calls = 0\<rparr>"

subsection \<open>Predicates used in the statements\<close>

text \<open>Whether a call is an \<open>enqueue\<close> to the destination \<open>d\<close>.\<close>

fun enqueues_to :: "string \<Rightarrow> call \<Rightarrow> bool" where
  "enqueues_to d (Enqueue d' fr, t1, t2) = (d' = d)"
| "enqueues_to d (Dequeue d', t1, t2) = False"
| "enqueues_to d (HasFrames d', t1, t2) = False"
| "enqueues_to d (Size d', t1, t2) = False"

text \<open>
  Whether a call runs through its last lines, the call of \<open>_sync\<close> included: an
  \<open>enqueue\<close> that returns normally, a \<open>dequeue\<close> that returns a frame.
\<close>

fun completes :: "DbmQueue \<Rightarrow> call \<Rightarrow> bool" where
  "completes s (Enqueue d fr, t1, t2) = (fst (enqueue s d fr t1 t2) = Inr ())"
| "completes s (Dequeue d, t1, t2) =
     (case fst (dequeue s d t1 t2) of Inr (Some fr) \<Rightarrow> True | _ \<Rightarrow> False)"
| "completes s (HasFrames d, t1, t2) = False"
| "completes s (Size d, t1, t2) = False"

text \<open>
  The pending ids of a destination, oldest first: \<open>appendleft\<close> adds at the head of the
  list and \<open>pop\<close> takes the last element, so the oldest id is the last one.
\<close>

definition pending :: "DbmQueue \<Rightarrow> string \<Rightarrow> string list" where
  "pending s d = (case queue_metadata s d of None \<Rightarrow> [] | Some e \<Rightarrow> rev (frames e))"

text \<open>
  Whether \<open>_last_sync + checkpoint_timeout\<close> is a \<open>datetime\<close> when the last flush
  was at \<open>t\<close>, so that line 227 does not raise.
\<close>

definition deadline_ok :: "DbmQueue \<Rightarrow> time \<Rightarrow> bool" where
  "deadline_ok s t \<longleftrightarrow> 0 \<le> t + checkpoint_timeout s \<and> t + checkpoint_timeout s \<le> datetime_max"

text \<open>
  Whether \<open>_sync\<close>, called at the end of the next operation that is counted, gets
  past line 227: the count is then over \<open>checkpoint_operations\<close>, so that the sum is
  not computed, or the sum is a \<open>datetime\<close>.
\<close>

definition sync_safe :: "DbmQueue \<Rightarrow> bool" where
  "sync_safe s \<longleftrightarrow>
     opcount s + 1 > checkpoint_operations s \<or> deadline_ok s (last_sync s)"

text \<open>Every entry has \<open>enqueued - dequeued = len(frames)\<close>.\<close>

definition counters_ok :: "DbmQueue \<Rightarrow> bool" where
  "counters_ok s \<longleftrightarrow>
     (\<forall>d e. queue_metadata s d = Some e \<longrightarrow> enqueued e - dequeued e = int (length (frames e)))"

text \<open>Every pending id has a payload in the frame store.\<close>

definition archive_ok :: "DbmQueue \<Rightarrow> bool" where
  "archive_ok s \<longleftrightarrow>
     (\<forall>d e m. queue_metadata s d = Some e \<longrightarrow> m \<in> set (frames e) \<longrightarrow> frame_store s m \<noteq> None)"

text \<open>No id is pending twice, on one destination or on two.\<close>

definition ids_unique :: "DbmQueue \<Rightarrow> bool" where
  "ids_unique s \<longleftrightarrow>
     (\<forall>d e. queue_metadata s d = Some e \<longrightarrow> distinct (frames e))
     \<and> (\<forall>d d' e e'. d \<noteq> d' \<longrightarrow> queue_metadata s d = Some e \<longrightarrow> queue_metadata s d' = Some e'
            \<longrightarrow> set (frames e) \<inter> set (frames e') = {})"

text \<open>
  A call does not reuse a live id: an \<open>enqueue\<close> that will be accepted carries an id
  that is pending on no destination. \<open>no_reuse\<close> says so of every call of a sequence,
  each in the store the calls before it have made.
\<close>

definition not_pending :: "DbmQueue \<Rightarrow> string \<Rightarrow> bool" where
  "not_pending s m \<longleftrightarrow> (\<forall>d e. queue_metadata s d = Some e \<longrightarrow> m \<notin> set (frames e))"

fun fresh :: "DbmQueue \<Rightarrow> call \<Rightarrow> bool" where
  "fresh s (Enqueue d fr, t1, t2) =
     (case message_id fr of None \<Rightarrow> True | Some m \<Rightarrow> m = [] \<or> not_pending s m)"
| "fresh s (Dequeue d, t1, t2) = True"
| "fresh s (HasFrames d, t1, t2) = True"
| "fresh s (Size d, t1, t2) = True"

fun no_reuse :: "DbmQueue \<Rightarrow> call list \<Rightarrow> bool" where
  "no_reuse s [] = True"
| "no_reuse s (x # xs) = (fresh s x \<and> no_reuse (step s x) xs)"

text \<open>
  The store as lines 143 to 152 of an accepted \<open>enqueue\<close> leave it, and as lines 169 to
  175 of a \<open>dequeue\<close> that found the entry \<open>e\<close> and its payload leave it: the store
  on which \<open>_sync\<close> is then called.
\<close>

definition after_put :: "DbmQueue \<Rightarrow> string \<Rightarrow> string \<Rightarrow> frame \<Rightarrow> DbmQueue" where
  "after_put s d m fr =
     s\<lparr>queue_metadata := (queue_metadata s)(d \<mapsto>
          (case queue_metadata s d of
             None \<Rightarrow> \<lparr>frames = [m], enqueued = 1, dequeued = 0, size_field = 0\<rparr>
           | Some e \<Rightarrow> e\<lparr>frames := m # frames e, enqueued := enqueued e + 1\<rparr>)),
       frame_store := (frame_store s)(m \<mapsto> fr),
       opcount := opcount s + 1\<rparr>"

definition after_take :: "DbmQueue \<Rightarrow> string \<Rightarrow> qentry \<Rightarrow> DbmQueue" where
  "after_take s d e =
     s\<lparr>queue_metadata := (queue_metadata s)(d \<mapsto>
          e\<lparr>frames := butlast (frames e), dequeued := dequeued e + 1\<rparr>),
       frame_store := (frame_store s)(last (frames e) := None),
       opcount := opcount s + 1\<rparr>"

section \<open>Properties\<close>

subsection \<open>Unfolding and case analysis\<close>

lemmas store_defs =
  new_store_def DbmQueue_init_def empty_env_def shelve_open_metadata_def
  shelve_open_frames_def timedelta_seconds_def os_path_join_def

lemmas method_defs =
  enqueue_def dequeue_def has_frames_def size_queue_def sync_def datetime_add_def
  datetime_max_def pop_def appendleft_def

lemma run_Nil: "run s [] = s"
  by (simp add: run_def)

lemma run_Cons: "run s (x # xs) = run (step s x) xs"
  by (simp add: run_def)

lemma run_snoc: "run s (xs @ [x]) = step (run s xs) x"
  by (simp add: run_def)

lemma call_cases [case_names Enq Deq Has Siz]:
  fixes x :: call
  obtains (Enq) d fr t1 t2 where "x = (Enqueue d fr, t1, t2)"
        | (Deq) d t1 t2 where "x = (Dequeue d, t1, t2)"
        | (Has) d t1 t2 where "x = (HasFrames d, t1, t2)"
        | (Siz) d t1 t2 where "x = (Size d, t1, t2)"
proof (cases x)
  case (fields c t1 t2)
  then show thesis using that by (cases c) simp_all
qed

lemma new_store_metadata: "queue_metadata (new_store now co ct) = Map.empty"
  by (simp add: new_store_def)

text \<open>
  \<open>new_store\<close> is what \<open>__init__\<close> returns on the empty directory, whenever the
  timeout is one \<open>timedelta\<close> accepts.
\<close>

lemma DbmQueue_init_new_store:
  assumes "timedelta_seconds (case ct of None \<Rightarrow> 20 | Some n \<Rightarrow> n) = Inr td"
  shows "DbmQueue_init empty_env now ''/data'' co ct =
           (Inr (new_store now co ct),
            empty_env\<lparr>opened := [''/data/metadata'', ''/data/frames'']\<rparr>)"
  using assms
  by (auto simp: DbmQueue_init_def shelve_open_metadata_def shelve_open_frames_def
        empty_env_def os_path_join_def new_store_def timedelta_seconds_def Let_def
      split: if_splits)

subsection \<open>What \<open>_sync\<close> does\<close>

lemma sync_queue_metadata: "queue_metadata (snd (sync s t1 t2)) = queue_metadata s"
  by (simp add: sync_def split: sum.splits)

lemma sync_frame_store: "frame_store (snd (sync s t1 t2)) = frame_store s"
  by (simp add: sync_def split: sum.splits)

lemma sync_returns:
  "opcount s > checkpoint_operations s \<or> deadline_ok s (last_sync s) \<Longrightarrow>
   fst (sync s t1 t2) = Inr ()"
  by (auto simp: sync_def datetime_add_def deadline_ok_def)

lemma sync_result:
  "fst (sync s t1 t2) = Inr ()
   \<or> (\<exists>msg. fst (sync s t1 t2) = Inl (OverflowError msg) \<and> snd (sync s t1 t2) = s)"
  by (simp add: sync_def datetime_add_def)

subsection \<open>What \<open>enqueue\<close> and \<open>dequeue\<close> do\<close>

lemma enqueue_rejected:
  "message_id fr = None \<or> message_id fr = Some [] \<Longrightarrow> snd (enqueue s d fr t1 t2) = s"
  by (auto simp: enqueue_def)

lemma enqueue_rejected_error:
  "message_id fr = None \<or> message_id fr = Some [] \<Longrightarrow>
   fst (enqueue s d fr t1 t2) = Inl (ValueError ''Cannot queue a frame without message-id set.'')"
  by (auto simp: enqueue_def)

text \<open>An accepted \<open>enqueue\<close> updates the two dictionaries and the count, then calls \<open>_sync\<close>.\<close>

lemma enqueue_accepted:
  assumes "message_id fr = Some m" and "m \<noteq> []"
  shows "enqueue s d fr t1 t2 = sync (after_put s d m fr) t1 t2"
  using assms
  by (simp add: enqueue_def after_put_def appendleft_def Let_def split: option.splits)

lemma enqueue_metadata:
  assumes "message_id fr = Some m" and "m \<noteq> []"
  shows "queue_metadata (snd (enqueue s d fr t1 t2)) =
           (queue_metadata s)(d \<mapsto>
              (case queue_metadata s d of
                 None \<Rightarrow> \<lparr>frames = [m], enqueued = 1, dequeued = 0, size_field = 0\<rparr>
               | Some e \<Rightarrow> e\<lparr>frames := m # frames e, enqueued := enqueued e + 1\<rparr>))"
  by (simp add: enqueue_accepted [OF assms] sync_queue_metadata after_put_def)

lemma enqueue_frame_store:
  assumes "message_id fr = Some m" and "m \<noteq> []"
  shows "frame_store (snd (enqueue s d fr t1 t2)) = (frame_store s)(m \<mapsto> fr)"
  by (simp add: enqueue_accepted [OF assms] sync_frame_store after_put_def)

lemma enqueue_returns:
  assumes "message_id fr = Some m" and "m \<noteq> []" and "sync_safe s"
  shows "fst (enqueue s d fr t1 t2) = Inr ()"
proof -
  have "opcount (after_put s d m fr) > checkpoint_operations (after_put s d m fr)
        \<or> deadline_ok (after_put s d m fr) (last_sync (after_put s d m fr))"
    using assms(3) by (simp add: sync_safe_def deadline_ok_def after_put_def)
  then show ?thesis by (simp add: enqueue_accepted [OF assms(1,2)] sync_returns)
qed

lemma dequeue_nothing:
  "queue_metadata s d = None \<or> (\<exists>e. queue_metadata s d = Some e \<and> frames e = []) \<Longrightarrow>
   dequeue s d t1 t2 = (Inr None, s)"
  by (auto simp: dequeue_def has_frames_def)

text \<open>
  A \<open>dequeue\<close> that finds an id pops it and counts it; if the id has a payload, the
  payload is deleted, the operation counted and \<open>_sync\<close> called; if not, line 172 raises.
\<close>

lemma dequeue_found:
  assumes "queue_metadata s d = Some e" and "frames e \<noteq> []"
    and "frame_store s (last (frames e)) = Some f"
  shows "snd (dequeue s d t1 t2) = snd (sync (after_take s d e) t1 t2)"
    and "fst (dequeue s d t1 t2) =
           (case fst (sync (after_take s d e) t1 t2) of
              Inl err \<Rightarrow> Inl err | Inr u \<Rightarrow> Inr (Some f))"
proof -
  have d: "dequeue s d t1 t2 =
           (case sync (after_take s d e) t1 t2 of
              (Inl err, s') \<Rightarrow> (Inl err, s')
            | (Inr u, s') \<Rightarrow> (Inr (Some f), s'))"
    using assms by (simp add: dequeue_def has_frames_def pop_def after_take_def Let_def)
  obtain r s' where r: "sync (after_take s d e) t1 t2 = (r, s')"
    by (cases "sync (after_take s d e) t1 t2")
  show "snd (dequeue s d t1 t2) = snd (sync (after_take s d e) t1 t2)"
    unfolding d r by (cases r) simp_all
  show "fst (dequeue s d t1 t2) =
           (case fst (sync (after_take s d e) t1 t2) of
              Inl err \<Rightarrow> Inl err | Inr u \<Rightarrow> Inr (Some f))"
    unfolding d r by (cases r) simp_all
qed

lemma dequeue_missing:
  assumes "queue_metadata s d = Some e" and "frames e \<noteq> []"
    and "frame_store s (last (frames e)) = None"
  shows "dequeue s d t1 t2 =
           (Inl (KeyError (last (frames e))),
            s\<lparr>queue_metadata := (queue_metadata s)(d \<mapsto>
                 e\<lparr>frames := butlast (frames e), dequeued := dequeued e + 1\<rparr>)\<rparr>)"
  using assms
  by (simp add: dequeue_def has_frames_def pop_def Let_def)

lemma dequeue_metadata:
  "queue_metadata (snd (dequeue s d t1 t2)) =
     (case queue_metadata s d of
        None \<Rightarrow> queue_metadata s
      | Some e \<Rightarrow>
          if frames e = [] then queue_metadata s
          else (queue_metadata s)(d \<mapsto>
                 e\<lparr>frames := butlast (frames e), dequeued := dequeued e + 1\<rparr>))"
proof (cases "queue_metadata s d")
  case None
  then show ?thesis by (simp add: dequeue_nothing)
next
  case e: (Some e)
  show ?thesis
  proof (cases "frames e = []")
    case True
    then show ?thesis using e by (simp add: dequeue_nothing)
  next
    case False
    show ?thesis
    proof (cases "frame_store s (last (frames e))")
      case None
      then show ?thesis using e False by (simp add: dequeue_missing)
    next
      case (Some f)
      show ?thesis
        using e False
        by (simp add: dequeue_found(1) [OF e False Some] sync_queue_metadata after_take_def)
    qed
  qed
qed

lemma dequeue_frame_store:
  assumes "queue_metadata s d = Some e" and "frames e \<noteq> []"
    and "frame_store s (last (frames e)) = Some f"
  shows "frame_store (snd (dequeue s d t1 t2)) = (frame_store s)(last (frames e) := None)"
  by (simp add: dequeue_found(1) [OF assms] sync_frame_store after_take_def)

lemma dequeue_returns:
  assumes "queue_metadata s d = Some e" and "frames e \<noteq> []"
    and "frame_store s (last (frames e)) = Some f" and "sync_safe s"
  shows "fst (dequeue s d t1 t2) = Inr (Some f)"
proof -
  have "opcount (after_take s d e) > checkpoint_operations (after_take s d e)
        \<or> deadline_ok (after_take s d e) (last_sync (after_take s d e))"
    using assms(4) by (simp add: sync_safe_def deadline_ok_def after_take_def)
  then have "fst (sync (after_take s d e) t1 t2) = Inr ()"
    by (rule sync_returns)
  then show ?thesis by (simp add: dequeue_found(2) [OF assms(1-3)])
qed

subsection \<open>First in, first out\<close>

lemma size_queue_pending: "size_queue s d = int (length (pending s d))"
  by (simp add: size_queue_def pending_def split: option.splits)

lemma enqueue_pending:
  assumes "message_id fr = Some m" and "m \<noteq> []"
  shows "pending (snd (enqueue s d fr t1 t2)) d = pending s d @ [m]"
  by (simp add: pending_def enqueue_metadata [OF assms] split: option.splits)

lemma dequeue_pending:
  assumes "pending s d = m # ms" and "frame_store s m = Some f"
  shows "pending (snd (dequeue s d t1 t2)) d = ms"
    and "frame_store (snd (dequeue s d t1 t2)) = (frame_store s)(m := None)"
    and "sync_safe s \<Longrightarrow> fst (dequeue s d t1 t2) = Inr (Some f)"
proof -
  obtain e where e: "queue_metadata s d = Some e" "rev (frames e) = m # ms"
    using assms(1) by (auto simp: pending_def split: option.splits)
  then have f: "frames e = rev ms @ [m]" by (simp add: rev_swap)
  then have ne: "frames e \<noteq> []" and l: "last (frames e) = m" and b: "butlast (frames e) = rev ms"
    by simp_all
  have p: "frame_store s (last (frames e)) = Some f" using assms(2) l by simp
  show "sync_safe s \<Longrightarrow> fst (dequeue s d t1 t2) = Inr (Some f)"
    using dequeue_returns [OF e(1) ne p] by simp
  show "frame_store (snd (dequeue s d t1 t2)) = (frame_store s)(m := None)"
    using dequeue_frame_store [OF e(1) ne p] l by simp
  show "pending (snd (dequeue s d t1 t2)) d = ms"
    using e(1) ne b by (simp add: pending_def dequeue_metadata)
qed

text \<open>
  Claim C1 does not hold for every three ids, every destination and every store.
  With the id \<open>x\<close> three times, the first \<open>dequeue\<close> returns the third frame, whose
  payload replaced the others, and the second raises \<open>KeyError\<close>. On a destination
  where \<open>z\<close> is pending already, the first \<open>dequeue\<close> after the three \<open>enqueue\<close> calls
  returns the frame of \<open>z\<close>. And in a store whose timeout of \<open>-10^12\<close> seconds puts
  \<open>_last_sync + checkpoint_timeout\<close> before year 1, line 227 raises \<open>OverflowError\<close>
  in the \<open>dequeue\<close>, which returns no frame.
\<close>

theorem fifo_fails:
  "fst (dequeue (run (new_store 0 None None)
          [(Enqueue ''/queue/a'' \<lparr>message_id = Some ''x'', body = ''one''\<rparr>, 1, 2),
           (Enqueue ''/queue/a'' \<lparr>message_id = Some ''x'', body = ''two''\<rparr>, 3, 4),
           (Enqueue ''/queue/a'' \<lparr>message_id = Some ''x'', body = ''three''\<rparr>, 5, 6)])
        ''/queue/a'' 7 8) = Inr (Some \<lparr>message_id = Some ''x'', body = ''three''\<rparr>)
   \<and> fst (dequeue (run (new_store 0 None None)
          [(Enqueue ''/queue/a'' \<lparr>message_id = Some ''x'', body = ''one''\<rparr>, 1, 2),
           (Enqueue ''/queue/a'' \<lparr>message_id = Some ''x'', body = ''two''\<rparr>, 3, 4),
           (Enqueue ''/queue/a'' \<lparr>message_id = Some ''x'', body = ''three''\<rparr>, 5, 6),
           (Dequeue ''/queue/a'', 7, 8)])
        ''/queue/a'' 9 10) = Inl (KeyError ''x'')
   \<and> fst (dequeue (run (new_store 0 None None)
          [(Enqueue ''/queue/a'' \<lparr>message_id = Some ''z'', body = ''zero''\<rparr>, 1, 2),
           (Enqueue ''/queue/a'' \<lparr>message_id = Some ''a'', body = ''one''\<rparr>, 3, 4),
           (Enqueue ''/queue/a'' \<lparr>message_id = Some ''b'', body = ''two''\<rparr>, 5, 6),
           (Enqueue ''/queue/a'' \<lparr>message_id = Some ''c'', body = ''three''\<rparr>, 7, 8)])
        ''/queue/a'' 9 10) = Inr (Some \<lparr>message_id = Some ''z'', body = ''zero''\<rparr>)
   \<and> fst (DbmQueue_init empty_env 63929390400000000 ''/data'' None (Some (- 1000000000000)))
       = Inr (new_store 63929390400000000 None (Some (- 1000000000000)))
   \<and> fst (dequeue (run (new_store 63929390400000000 None (Some (- 1000000000000)))
          [(Enqueue ''/queue/a'' \<lparr>message_id = Some ''a'', body = ''one''\<rparr>,
              63929390400000001, 63929390400000002),
           (Enqueue ''/queue/a'' \<lparr>message_id = Some ''b'', body = ''two''\<rparr>,
              63929390400000003, 63929390400000004),
           (Enqueue ''/queue/a'' \<lparr>message_id = Some ''c'', body = ''three''\<rparr>,
              63929390400000005, 63929390400000006)])
        ''/queue/a'' 63929390400000007 63929390400000008)
       = Inl (OverflowError ''date value out of range'')"
  by (simp add: DbmQueue_init_new_store timedelta_seconds_def run_def new_store_def
        method_defs Let_def)

text \<open>
  Claim C1, amended. On a destination with nothing pending, after three frames with the
  pairwise distinct, non-empty ids \<open>a\<close>, \<open>b\<close>, \<open>c\<close> are enqueued in that order,
  whatever the store holds for other destinations and whatever the \<open>enqueue\<close> calls
  return, three calls of \<open>dequeue\<close> in which line 227 does not raise return the frames
  of \<open>a\<close>, \<open>b\<close>, \<open>c\<close> in that order and leave the destination empty.
\<close>

theorem fifo_distinct_ids:
  assumes "size_queue s d = 0"
    and "message_id fa = Some a" and "message_id fb = Some b" and "message_id fc = Some c"
    and "a \<noteq> []" and "b \<noteq> []" and "c \<noteq> []"
    and "a \<noteq> b" and "a \<noteq> c" and "b \<noteq> c"
    and "sync_safe (run s [(Enqueue d fa, ta), (Enqueue d fb, tb), (Enqueue d fc, tc)])"
    and "sync_safe (run s [(Enqueue d fa, ta), (Enqueue d fb, tb), (Enqueue d fc, tc),
                           (Dequeue d, t1, u1)])"
    and "sync_safe (run s [(Enqueue d fa, ta), (Enqueue d fb, tb), (Enqueue d fc, tc),
                           (Dequeue d, t1, u1), (Dequeue d, t2, u2)])"
  shows "fst (dequeue (run s [(Enqueue d fa, ta), (Enqueue d fb, tb), (Enqueue d fc, tc)])
              d t1 u1) = Inr (Some fa)
       \<and> fst (dequeue (run s [(Enqueue d fa, ta), (Enqueue d fb, tb), (Enqueue d fc, tc),
                               (Dequeue d, t1, u1)])
              d t2 u2) = Inr (Some fb)
       \<and> fst (dequeue (run s [(Enqueue d fa, ta), (Enqueue d fb, tb), (Enqueue d fc, tc),
                               (Dequeue d, t1, u1), (Dequeue d, t2, u2)])
              d t3 u3) = Inr (Some fc)
       \<and> size_queue (run s [(Enqueue d fa, ta), (Enqueue d fb, tb), (Enqueue d fc, tc),
                               (Dequeue d, t1, u1), (Dequeue d, t2, u2), (Dequeue d, t3, u3)])
              d = 0"
proof -
  obtain ta1 ta2 tb1 tb2 tc1 tc2 where t: "ta = (ta1, ta2)" "tb = (tb1, tb2)" "tc = (tc1, tc2)"
    by (cases ta, cases tb, cases tc)
  let ?s1 = "snd (enqueue s d fa ta1 ta2)"
  let ?s2 = "snd (enqueue ?s1 d fb tb1 tb2)"
  let ?s3 = "snd (enqueue ?s2 d fc tc1 tc2)"
  let ?s4 = "snd (dequeue ?s3 d t1 u1)"
  let ?s5 = "snd (dequeue ?s4 d t2 u2)"
  let ?s6 = "snd (dequeue ?s5 d t3 u3)"
  have r3: "run s [(Enqueue d fa, ta), (Enqueue d fb, tb), (Enqueue d fc, tc)] = ?s3"
    and r4: "run s [(Enqueue d fa, ta), (Enqueue d fb, tb), (Enqueue d fc, tc),
                    (Dequeue d, t1, u1)] = ?s4"
    and r5: "run s [(Enqueue d fa, ta), (Enqueue d fb, tb), (Enqueue d fc, tc),
                    (Dequeue d, t1, u1), (Dequeue d, t2, u2)] = ?s5"
    and r6: "run s [(Enqueue d fa, ta), (Enqueue d fb, tb), (Enqueue d fc, tc),
                    (Dequeue d, t1, u1), (Dequeue d, t2, u2), (Dequeue d, t3, u3)] = ?s6"
    by (simp_all add: run_def t)
  have k3: "sync_safe ?s3" using assms(11) unfolding r3 .
  have k4: "sync_safe ?s4" using assms(12) unfolding r4 .
  have k5: "sync_safe ?s5" using assms(13) unfolding r5 .
  have p0: "pending s d = []"
    using assms(1) by (simp add: size_queue_pending)
  have p3: "pending ?s3 d = [a, b, c]"
    using p0 assms(2-7) by (simp add: enqueue_pending)
  have f3: "frame_store ?s3 = (frame_store s)(a \<mapsto> fa, b \<mapsto> fb, c \<mapsto> fc)"
    using assms(2-7) by (simp add: enqueue_frame_store)
  have a3: "frame_store ?s3 a = Some fa"
    using f3 assms(8-10) by simp
  note d4 = dequeue_pending [OF p3 a3, of t1 u1]
  have b4: "frame_store ?s4 b = Some fb"
    using d4(2) f3 assms(8-10) by simp
  note d5 = dequeue_pending [OF d4(1) b4, of t2 u2]
  have c5: "frame_store ?s5 c = Some fc"
    using d5(2) d4(2) f3 assms(8-10) by simp
  note d6 = dequeue_pending [OF d5(1) c5, of t3 u3]
  show ?thesis
    unfolding r3 r4 r5 r6
    using d4(3) [OF k3] d5(3) [OF k4] d6(3) [OF k5] d6(1) by (simp add: size_queue_pending)
qed

theorem fifo_distinct_ids_witness:
  "size_queue (new_store 0 None None) ''/queue/a'' = 0
   \<and> sync_safe (run (new_store 0 None None)
        [(Enqueue ''/queue/a'' \<lparr>message_id = Some ''1'', body = ''one''\<rparr>, 1, 2),
         (Enqueue ''/queue/a'' \<lparr>message_id = Some ''2'', body = ''two''\<rparr>, 3, 4),
         (Enqueue ''/queue/a'' \<lparr>message_id = Some ''3'', body = ''three''\<rparr>, 5, 6)])
   \<and> sync_safe (run (new_store 0 None None)
        [(Enqueue ''/queue/a'' \<lparr>message_id = Some ''1'', body = ''one''\<rparr>, 1, 2),
         (Enqueue ''/queue/a'' \<lparr>message_id = Some ''2'', body = ''two''\<rparr>, 3, 4),
         (Enqueue ''/queue/a'' \<lparr>message_id = Some ''3'', body = ''three''\<rparr>, 5, 6),
         (Dequeue ''/queue/a'', 7, 8)])
   \<and> sync_safe (run (new_store 0 None None)
        [(Enqueue ''/queue/a'' \<lparr>message_id = Some ''1'', body = ''one''\<rparr>, 1, 2),
         (Enqueue ''/queue/a'' \<lparr>message_id = Some ''2'', body = ''two''\<rparr>, 3, 4),
         (Enqueue ''/queue/a'' \<lparr>message_id = Some ''3'', body = ''three''\<rparr>, 5, 6),
         (Dequeue ''/queue/a'', 7, 8), (Dequeue ''/queue/a'', 9, 10)])
   \<and> fst (dequeue (run (new_store 0 None None)
        [(Enqueue ''/queue/a'' \<lparr>message_id = Some ''1'', body = ''one''\<rparr>, 1, 2),
         (Enqueue ''/queue/a'' \<lparr>message_id = Some ''2'', body = ''two''\<rparr>, 3, 4),
         (Enqueue ''/queue/a'' \<lparr>message_id = Some ''3'', body = ''three''\<rparr>, 5, 6)])
        ''/queue/a'' 7 8) = Inr (Some \<lparr>message_id = Some ''1'', body = ''one''\<rparr>)
   \<and> fst (dequeue (run (new_store 0 None None)
        [(Enqueue ''/queue/a'' \<lparr>message_id = Some ''1'', body = ''one''\<rparr>, 1, 2),
         (Enqueue ''/queue/a'' \<lparr>message_id = Some ''2'', body = ''two''\<rparr>, 3, 4),
         (Enqueue ''/queue/a'' \<lparr>message_id = Some ''3'', body = ''three''\<rparr>, 5, 6),
         (Dequeue ''/queue/a'', 7, 8)])
        ''/queue/a'' 9 10) = Inr (Some \<lparr>message_id = Some ''2'', body = ''two''\<rparr>)
   \<and> fst (dequeue (run (new_store 0 None None)
        [(Enqueue ''/queue/a'' \<lparr>message_id = Some ''1'', body = ''one''\<rparr>, 1, 2),
         (Enqueue ''/queue/a'' \<lparr>message_id = Some ''2'', body = ''two''\<rparr>, 3, 4),
         (Enqueue ''/queue/a'' \<lparr>message_id = Some ''3'', body = ''three''\<rparr>, 5, 6),
         (Dequeue ''/queue/a'', 7, 8), (Dequeue ''/queue/a'', 9, 10)])
        ''/queue/a'' 11 12) = Inr (Some \<lparr>message_id = Some ''3'', body = ''three''\<rparr>)"
proof -
  let ?fa = "\<lparr>message_id = Some ''1'', body = ''one''\<rparr>"
  let ?fb = "\<lparr>message_id = Some ''2'', body = ''two''\<rparr>"
  let ?fc = "\<lparr>message_id = Some ''3'', body = ''three''\<rparr>"
  have h: "size_queue (new_store 0 None None) ''/queue/a'' = 0"
    by (simp add: size_queue_def new_store_metadata)
  have k3: "sync_safe (run (new_store 0 None None)
        [(Enqueue ''/queue/a'' ?fa, 1, 2), (Enqueue ''/queue/a'' ?fb, 3, 4),
         (Enqueue ''/queue/a'' ?fc, 5, 6)])"
    by (simp add: sync_safe_def deadline_ok_def run_def new_store_def method_defs Let_def)
  have k4: "sync_safe (run (new_store 0 None None)
        [(Enqueue ''/queue/a'' ?fa, 1, 2), (Enqueue ''/queue/a'' ?fb, 3, 4),
         (Enqueue ''/queue/a'' ?fc, 5, 6), (Dequeue ''/queue/a'', 7, 8)])"
    by (simp add: sync_safe_def deadline_ok_def run_def new_store_def method_defs Let_def)
  have k5: "sync_safe (run (new_store 0 None None)
        [(Enqueue ''/queue/a'' ?fa, 1, 2), (Enqueue ''/queue/a'' ?fb, 3, 4),
         (Enqueue ''/queue/a'' ?fc, 5, 6), (Dequeue ''/queue/a'', 7, 8),
         (Dequeue ''/queue/a'', 9, 10)])"
    by (simp add: sync_safe_def deadline_ok_def run_def new_store_def method_defs Let_def)
  show ?thesis
    using h k3 k4 k5
      fifo_distinct_ids [of "new_store 0 None None" "''/queue/a''" ?fa "''1''" ?fb "''2''"
        ?fc "''3''" "(1, 2)" "(3, 4)" "(5, 6)" 7 8 9 10 11 12]
    by simp
qed

subsection \<open>The counters\<close>

lemma enqueue_counters_ok:
  assumes "counters_ok s"
  shows "counters_ok (snd (enqueue s d fr t1 t2))"
proof (cases "message_id fr = None \<or> message_id fr = Some []")
  case True
  then show ?thesis using assms by (simp add: enqueue_rejected)
next
  case False
  then obtain m where m: "message_id fr = Some m" "m \<noteq> []" by auto
  show ?thesis
    using assms unfolding counters_ok_def enqueue_metadata [OF m]
    by (auto split: option.splits if_splits)
qed

lemma dequeue_counters_ok:
  assumes "counters_ok s"
  shows "counters_ok (snd (dequeue s d t1 t2))"
proof (cases "queue_metadata s d")
  case None
  then show ?thesis using assms by (simp add: counters_ok_def dequeue_metadata)
next
  case (Some e)
  have e: "enqueued e - dequeued e = int (length (frames e))"
    using assms Some by (simp add: counters_ok_def)
  show ?thesis
  proof (cases "frames e = []")
    case True
    then show ?thesis using assms Some by (simp add: counters_ok_def dequeue_metadata)
  next
    case False
    then have "int (length (frames e) - Suc 0) = int (length (frames e)) - 1"
      by (cases "frames e") simp_all
    with e have "enqueued e - (dequeued e + 1) = int (length (frames e) - Suc 0)"
      by simp
    then show ?thesis
      using assms Some False by (simp add: counters_ok_def dequeue_metadata)
  qed
qed

lemma step_counters_ok: "counters_ok s \<Longrightarrow> counters_ok (step s x)"
  by (cases x rule: call_cases) (simp_all add: enqueue_counters_ok dequeue_counters_ok)

lemma run_counters_ok: "counters_ok s \<Longrightarrow> counters_ok (run s ops)"
  by (induction ops arbitrary: s) (simp_all add: run_Nil run_Cons step_counters_ok)

lemma new_store_counters_ok: "counters_ok (new_store now co ct)"
  by (simp add: counters_ok_def new_store_metadata)

text \<open>
  Claim C2. Starting from a store whose entries all satisfy
  \<open>enqueued - dequeued = len(frames)\<close> (a new store has no entry), after every sequence
  of calls every destination with an entry has \<open>enqueued - dequeued\<close> equal to the length
  of its pending deque, which is what \<open>size\<close> returns for it. This holds also after a
  call that raised.
\<close>

theorem counters_match_size:
  assumes "counters_ok s" and "queue_metadata (run s ops) d = Some e"
  shows "enqueued e - dequeued e = int (length (frames e))
         \<and> enqueued e - dequeued e = size_queue (run s ops) d"
proof -
  have "counters_ok (run s ops)" using assms(1) by (rule run_counters_ok)
  then have "enqueued e - dequeued e = int (length (frames e))"
    using assms(2) by (simp add: counters_ok_def)
  then show ?thesis using assms(2) by (simp add: size_queue_def)
qed

theorem counters_match_size_witness:
  "counters_ok (new_store 0 None None)
   \<and> queue_metadata (run (new_store 0 None None)
        [(Enqueue ''/queue/a'' \<lparr>message_id = Some ''1'', body = ''one''\<rparr>, 1, 2),
         (Enqueue ''/queue/a'' \<lparr>message_id = Some ''2'', body = ''two''\<rparr>, 3, 4),
         (Dequeue ''/queue/a'', 5, 6)]) ''/queue/a''
       = Some \<lparr>frames = [''2''], enqueued = 2, dequeued = 1, size_field = 0\<rparr>
   \<and> size_queue (run (new_store 0 None None)
        [(Enqueue ''/queue/a'' \<lparr>message_id = Some ''1'', body = ''one''\<rparr>, 1, 2),
         (Enqueue ''/queue/a'' \<lparr>message_id = Some ''2'', body = ''two''\<rparr>, 3, 4),
         (Dequeue ''/queue/a'', 5, 6)]) ''/queue/a'' = 2 - 1"
proof -
  have h1: "counters_ok (new_store 0 None None)"
    by (simp add: counters_ok_def new_store_metadata)
  have h2: "queue_metadata (run (new_store 0 None None)
        [(Enqueue ''/queue/a'' \<lparr>message_id = Some ''1'', body = ''one''\<rparr>, 1, 2),
         (Enqueue ''/queue/a'' \<lparr>message_id = Some ''2'', body = ''two''\<rparr>, 3, 4),
         (Dequeue ''/queue/a'', 5, 6)]) ''/queue/a''
       = Some \<lparr>frames = [''2''], enqueued = 2, dequeued = 1, size_field = 0\<rparr>"
    by (simp add: run_def store_defs method_defs Let_def)
  show ?thesis using h1 h2 counters_match_size [OF h1 h2] by simp
qed

subsection \<open>A frame without message id\<close>

text \<open>
  Claim C3. An \<open>enqueue\<close> of a frame whose \<open>message_id\<close> is absent or empty
  raises \<open>ValueError\<close> and returns the store it was given: the metadata entry, the
  counters, the frame store and the operation count are those before the call, and so is
  the size of the destination.
\<close>

theorem enqueue_without_message_id:
  assumes "message_id fr = None \<or> message_id fr = Some []"
  shows "enqueue s d fr t1 t2 =
           (Inl (ValueError ''Cannot queue a frame without message-id set.''), s)
         \<and> size_queue (snd (enqueue s d fr t1 t2)) d = size_queue s d"
  using assms by (auto simp: enqueue_def)

theorem enqueue_without_message_id_witness:
  "(message_id \<lparr>message_id = Some [], body = ''hello''\<rparr> = None
      \<or> message_id \<lparr>message_id = Some [], body = ''hello''\<rparr> = Some [])
   \<and> enqueue (new_store 0 None None) ''/queue/d'' \<lparr>message_id = Some [], body = ''hello''\<rparr> 1 2 =
       (Inl (ValueError ''Cannot queue a frame without message-id set.''), new_store 0 None None)
   \<and> size_queue (snd (enqueue (new_store 0 None None) ''/queue/d''
         \<lparr>message_id = Some [], body = ''hello''\<rparr> 1 2)) ''/queue/d'' = 0"
  using enqueue_without_message_id
    [of "\<lparr>message_id = Some [], body = ''hello''\<rparr>" "new_store 0 None None" "''/queue/d''" 1 2]
  by (simp add: size_queue_def new_store_metadata)

subsection \<open>A destination with nothing pending\<close>

text \<open>
  Claim C4. A \<open>dequeue\<close> on a destination of size 0, unknown or emptied, returns
  \<open>None\<close> without an exception and returns the store it was given: counters, metadata,
  frame store and operation count are unchanged.
\<close>

theorem dequeue_nothing_pending:
  assumes "size_queue s d = 0"
  shows "dequeue s d t1 t2 = (Inr None, s)"
  using assms by (simp add: dequeue_def has_frames_def size_queue_def split: option.splits)

theorem dequeue_nothing_pending_witness:
  "size_queue (run (new_store 0 None None)
       [(Enqueue ''/queue/a'' \<lparr>message_id = Some ''1'', body = ''hello''\<rparr>, 1, 2),
        (Dequeue ''/queue/a'', 3, 4)]) ''/queue/a'' = 0
   \<and> dequeue (run (new_store 0 None None)
       [(Enqueue ''/queue/a'' \<lparr>message_id = Some ''1'', body = ''hello''\<rparr>, 1, 2),
        (Dequeue ''/queue/a'', 3, 4)]) ''/queue/a'' 5 6 =
      (Inr None, run (new_store 0 None None)
       [(Enqueue ''/queue/a'' \<lparr>message_id = Some ''1'', body = ''hello''\<rparr>, 1, 2),
        (Dequeue ''/queue/a'', 3, 4)])"
proof -
  have h: "size_queue (run (new_store 0 None None)
       [(Enqueue ''/queue/a'' \<lparr>message_id = Some ''1'', body = ''hello''\<rparr>, 1, 2),
        (Dequeue ''/queue/a'', 3, 4)]) ''/queue/a'' = 0"
    by (simp add: run_def store_defs method_defs Let_def)
  show ?thesis using h dequeue_nothing_pending [OF h, of 5 6] by simp
qed

subsection \<open>\<open>has_frames\<close> and \<open>size\<close>\<close>

lemma enqueue_other_entry:
  "d' \<noteq> d \<Longrightarrow> queue_metadata (snd (enqueue s d' fr t1 t2)) d = queue_metadata s d"
proof (cases "message_id fr = None \<or> message_id fr = Some []")
  case True
  then show ?thesis by (simp add: enqueue_rejected)
next
  case False
  then obtain m where m: "message_id fr = Some m" "m \<noteq> []" by auto
  assume "d' \<noteq> d"
  then show ?thesis by (simp add: enqueue_metadata [OF m])
qed

lemma dequeue_absent_entry:
  "queue_metadata s d = None \<Longrightarrow> queue_metadata (snd (dequeue s d' t1 t2)) d = None"
  by (auto simp: dequeue_metadata split: option.splits)

lemma step_absent_entry:
  "queue_metadata s d = None \<Longrightarrow> \<not> enqueues_to d x \<Longrightarrow> queue_metadata (step s x) d = None"
  by (cases x rule: call_cases) (simp_all add: enqueue_other_entry dequeue_absent_entry)

lemma run_absent_entry:
  "queue_metadata s d = None \<Longrightarrow> \<not> list_ex (enqueues_to d) ops \<Longrightarrow>
   queue_metadata (run s ops) d = None"
  by (induction ops arbitrary: s) (simp_all add: run_Nil run_Cons step_absent_entry)

text \<open>
  Claim C5. In every store, hence after every sequence of calls, \<open>has_frames\<close> of a
  destination is true exactly when its \<open>size\<close> is positive; and after any sequence of
  calls on a new store that never enqueues to \<open>d\<close>, \<open>has_frames d\<close> is false and
  \<open>size d\<close> is 0.
\<close>

theorem has_frames_iff_size:
  "has_frames s d = (0 < size_queue s d)
   \<and> (\<not> list_ex (enqueues_to d) ops \<longrightarrow>
        \<not> has_frames (run (new_store now co ct) ops) d
        \<and> size_queue (run (new_store now co ct) ops) d = 0)"
proof -
  have a: "has_frames s d = (0 < size_queue s d)"
    by (simp add: has_frames_def size_queue_def split: option.splits)
  have b: "queue_metadata (run (new_store now co ct) ops) d = None"
    if "\<not> list_ex (enqueues_to d) ops"
    using that by (simp add: run_absent_entry new_store_metadata)
  show ?thesis using a b by (simp add: has_frames_def size_queue_def)
qed

theorem has_frames_iff_size_witness:
  "\<not> list_ex (enqueues_to ''/queue/b'')
       [(Enqueue ''/queue/a'' \<lparr>message_id = Some ''1'', body = ''hello''\<rparr>, 1, 2),
        (Dequeue ''/queue/b'', 3, 4)]
   \<and> \<not> has_frames (run (new_store 0 None None)
       [(Enqueue ''/queue/a'' \<lparr>message_id = Some ''1'', body = ''hello''\<rparr>, 1, 2),
        (Dequeue ''/queue/b'', 3, 4)]) ''/queue/b''
   \<and> size_queue (run (new_store 0 None None)
       [(Enqueue ''/queue/a'' \<lparr>message_id = Some ''1'', body = ''hello''\<rparr>, 1, 2),
        (Dequeue ''/queue/b'', 3, 4)]) ''/queue/b'' = 0"
  using has_frames_iff_size [of "new_store 0 None None" "''/queue/b''"
       "[(Enqueue ''/queue/a'' \<lparr>message_id = Some ''1'', body = ''hello''\<rparr>, 1, 2),
        (Dequeue ''/queue/b'', 3, 4)]" 0 None None]
  by simp

subsection \<open>Checkpoints\<close>

lemma sync_flush:
  assumes "fst (sync s t1 t2) = Inr ()"
    and "opcount s > checkpoint_operations s \<or> t1 - last_sync s > checkpoint_timeout s"
  shows "snd (sync s t1 t2) =
           s\<lparr>sync_calls := Suc (sync_calls s), last_sync := t2, opcount := 0\<rparr>"
  using assms by (auto simp: sync_def datetime_add_def split: if_splits)

lemma sync_no_flush:
  assumes "\<not> (opcount s > checkpoint_operations s \<or> t1 - last_sync s > checkpoint_timeout s)"
  shows "snd (sync s t1 t2) = s"
  using assms by (auto simp: sync_def datetime_add_def split: if_splits)

lemma completes_reaches_sync:
  assumes "completes s (c, t1, t2)"
  shows "\<exists>s'. step s (c, t1, t2) = snd (sync s' t1 t2) \<and> fst (sync s' t1 t2) = Inr ()
          \<and> opcount s' = opcount s + 1
          \<and> last_sync s' = last_sync s \<and> sync_calls s' = sync_calls s
          \<and> checkpoint_operations s' = checkpoint_operations s
          \<and> checkpoint_timeout s' = checkpoint_timeout s"
proof (cases c)
  case (Enqueue d fr)
  then have r: "fst (enqueue s d fr t1 t2) = Inr ()" using assms by simp
  have "\<not> (message_id fr = None \<or> message_id fr = Some [])"
  proof
    assume "message_id fr = None \<or> message_id fr = Some []"
    from enqueue_rejected_error [OF this, of s d t1 t2] r show False by simp
  qed
  then obtain m where m: "message_id fr = Some m" "m \<noteq> []"
    by (cases "message_id fr") auto
  show ?thesis
    using r Enqueue unfolding enqueue_accepted [OF m]
    by (intro exI [of _ "after_put s d m fr"]) (simp add: enqueue_accepted [OF m] after_put_def)
next
  case (Dequeue d)
  then obtain f where r: "fst (dequeue s d t1 t2) = Inr (Some f)"
    using assms by (auto split: sum.splits option.splits)
  have "\<not> (queue_metadata s d = None \<or> (\<exists>e. queue_metadata s d = Some e \<and> frames e = []))"
  proof
    assume "queue_metadata s d = None \<or> (\<exists>e. queue_metadata s d = Some e \<and> frames e = [])"
    from dequeue_nothing [OF this, of t1 t2] r show False by simp
  qed
  then obtain e where e: "queue_metadata s d = Some e" "frames e \<noteq> []"
    by (cases "queue_metadata s d") auto
  have "frame_store s (last (frames e)) \<noteq> None"
  proof
    assume "frame_store s (last (frames e)) = None"
    from dequeue_missing [OF e this, of t1 t2] r show False by simp
  qed
  then obtain g where g: "frame_store s (last (frames e)) = Some g" by auto
  have "fst (sync (after_take s d e) t1 t2) = Inr ()"
    using r dequeue_found(2) [OF e g, of t1 t2]
    by (cases "fst (sync (after_take s d e) t1 t2)") simp_all
  then show ?thesis
    using Dequeue dequeue_found(1) [OF e g, of t1 t2]
    by (intro exI [of _ "after_take s d e"]) (simp add: after_take_def)
next
  case (HasFrames d)
  then show ?thesis using assms by simp
next
  case (Size d)
  then show ?thesis using assms by simp
qed

lemma completes_flush:
  assumes "completes s (c, t1, t2)"
    and "opcount s + 1 > checkpoint_operations s \<or> t1 - last_sync s > checkpoint_timeout s"
  shows "sync_calls (step s (c, t1, t2)) = Suc (sync_calls s)
         \<and> opcount (step s (c, t1, t2)) = 0 \<and> last_sync (step s (c, t1, t2)) = t2
         \<and> checkpoint_operations (step s (c, t1, t2)) = checkpoint_operations s
         \<and> checkpoint_timeout (step s (c, t1, t2)) = checkpoint_timeout s"
proof -
  obtain s' where s': "step s (c, t1, t2) = snd (sync s' t1 t2)" "fst (sync s' t1 t2) = Inr ()"
      "opcount s' = opcount s + 1"
      "last_sync s' = last_sync s" "sync_calls s' = sync_calls s"
      "checkpoint_operations s' = checkpoint_operations s"
      "checkpoint_timeout s' = checkpoint_timeout s"
    using completes_reaches_sync [OF assms(1)] by blast
  have "opcount s' > checkpoint_operations s' \<or> t1 - last_sync s' > checkpoint_timeout s'"
    using assms(2) s' by auto
  then show ?thesis using s' sync_flush [OF s'(2)] by simp
qed

lemma completes_no_flush:
  assumes "completes s (c, t1, t2)"
    and "\<not> (opcount s + 1 > checkpoint_operations s \<or> t1 - last_sync s > checkpoint_timeout s)"
  shows "sync_calls (step s (c, t1, t2)) = sync_calls s
         \<and> opcount (step s (c, t1, t2)) = opcount s + 1
         \<and> last_sync (step s (c, t1, t2)) = last_sync s
         \<and> checkpoint_operations (step s (c, t1, t2)) = checkpoint_operations s
         \<and> checkpoint_timeout (step s (c, t1, t2)) = checkpoint_timeout s"
proof -
  obtain s' where s': "step s (c, t1, t2) = snd (sync s' t1 t2)" "fst (sync s' t1 t2) = Inr ()"
      "opcount s' = opcount s + 1"
      "last_sync s' = last_sync s" "sync_calls s' = sync_calls s"
      "checkpoint_operations s' = checkpoint_operations s"
      "checkpoint_timeout s' = checkpoint_timeout s"
    using completes_reaches_sync [OF assms(1)] by blast
  have "\<not> (opcount s' > checkpoint_operations s' \<or> t1 - last_sync s' > checkpoint_timeout s')"
    using assms(2) s' by auto
  then show ?thesis using s' sync_no_flush [of s' t1 t2] by simp
qed

text \<open>A call that does not run through its last line flushes nothing.\<close>

lemma incomplete_call_no_flush:
  assumes "\<not> completes s x"
  shows "sync_calls (step s x) = sync_calls s \<and> last_sync (step s x) = last_sync s"
proof (cases x rule: call_cases)
  case (Enq d fr t1 t2)
  show ?thesis
  proof (cases "message_id fr = None \<or> message_id fr = Some []")
    case True
    then show ?thesis using Enq by (simp add: enqueue_rejected)
  next
    case False
    then obtain m where m: "message_id fr = Some m" "m \<noteq> []" by auto
    have "fst (sync (after_put s d m fr) t1 t2) \<noteq> Inr ()"
      using assms Enq by (simp add: enqueue_accepted [OF m])
    then have "snd (sync (after_put s d m fr) t1 t2) = after_put s d m fr"
      using sync_result [of "after_put s d m fr" t1 t2] by auto
    then show ?thesis using Enq by (simp add: enqueue_accepted [OF m] after_put_def)
  qed
next
  case (Deq d t1 t2)
  then have no: "fst (dequeue s d t1 t2) \<noteq> Inr (Some f)" for f
    using assms by auto
  show ?thesis
  proof (cases "queue_metadata s d = None \<or> (\<exists>e. queue_metadata s d = Some e \<and> frames e = [])")
    case True
    then show ?thesis using Deq by (simp add: dequeue_nothing)
  next
    case False
    then obtain e where e: "queue_metadata s d = Some e" "frames e \<noteq> []" by auto
    show ?thesis
    proof (cases "frame_store s (last (frames e))")
      case None
      then show ?thesis using Deq e by (simp add: dequeue_missing)
    next
      case (Some g)
      have "fst (sync (after_take s d e) t1 t2) \<noteq> Inr ()"
        using no [of g] dequeue_found(2) [OF e Some, of t1 t2] by auto
      then have "snd (sync (after_take s d e) t1 t2) = after_take s d e"
        using sync_result [of "after_take s d e" t1 t2] by auto
      then show ?thesis
        using Deq by (simp add: dequeue_found(1) [OF e Some] after_take_def)
    qed
  qed
next
  case (Has d t1 t2)
  then show ?thesis by simp
next
  case (Siz d t1 t2)
  then show ?thesis by simp
qed

lemma third_call_flushes:
  assumes o: "opcount s = 0" and c: "checkpoint_operations s = 2"
    and c1: "completes s (a1, t1, u1)"
    and c2: "completes (run s [(a1, t1, u1)]) (a2, t2, u2)"
    and c3: "completes (run s [(a1, t1, u1), (a2, t2, u2)]) (a3, t3, u3)"
    and l1: "t1 - last_sync s \<le> checkpoint_timeout s"
    and l2: "t2 - last_sync s \<le> checkpoint_timeout s"
    and l3: "t3 - last_sync s \<le> checkpoint_timeout s"
  shows "sync_calls (run s [(a1, t1, u1)]) = sync_calls s
         \<and> sync_calls (run s [(a1, t1, u1), (a2, t2, u2)]) = sync_calls s
         \<and> sync_calls (run s [(a1, t1, u1), (a2, t2, u2), (a3, t3, u3)]) = Suc (sync_calls s)
         \<and> opcount (run s [(a1, t1, u1), (a2, t2, u2), (a3, t3, u3)]) = 0
         \<and> last_sync (run s [(a1, t1, u1), (a2, t2, u2), (a3, t3, u3)]) = u3"
proof -
  let ?s1 = "step s (a1, t1, u1)"
  let ?s2 = "step ?s1 (a2, t2, u2)"
  let ?s3 = "step ?s2 (a3, t3, u3)"
  have r1: "run s [(a1, t1, u1)] = ?s1" 
    and r2: "run s [(a1, t1, u1), (a2, t2, u2)] = ?s2"
    and r3: "run s [(a1, t1, u1), (a2, t2, u2), (a3, t3, u3)] = ?s3"
    by (simp_all add: run_def)
  have n1: "\<not> (opcount s + 1 > checkpoint_operations s \<or> t1 - last_sync s > checkpoint_timeout s)"
    using o c l1 by simp
  note p1 = completes_no_flush [OF c1 n1]
  have n2: "\<not> (opcount ?s1 + 1 > checkpoint_operations ?s1
               \<or> t2 - last_sync ?s1 > checkpoint_timeout ?s1)"
    using p1 o c l2 by simp
  note p2 = completes_no_flush [OF c2 [unfolded r1] n2]
  have n3: "opcount ?s2 + 1 > checkpoint_operations ?s2
               \<or> t3 - last_sync ?s2 > checkpoint_timeout ?s2"
    using p1 p2 o c by simp
  note p3 = completes_flush [OF c3 [unfolded r2] n3]
  show ?thesis unfolding r1 r2 r3 using p1 p2 p3 by simp
qed

text \<open>
  Claim C6 does not hold of every \<open>enqueue\<close> and \<open>dequeue\<close>. In a store whose
  timeout of \<open>-10^12\<close> seconds puts \<open>_last_sync + checkpoint_timeout\<close> before year
  1, an \<open>enqueue\<close> one microsecond after the last flush, which is more than the timeout
  after it, raises \<open>OverflowError\<close> at line 227 and flushes nothing. And a \<open>dequeue\<close>
  on a destination with nothing pending, 21 seconds after the last flush with a timeout
  of 20 seconds, returns at line 167 and flushes nothing.
\<close>

theorem flush_not_triggered:
  "fst (DbmQueue_init empty_env 63929390400000000 ''/data'' None (Some (- 1000000000000)))
     = Inr (new_store 63929390400000000 None (Some (- 1000000000000)))
   \<and> 63929390400000001 - last_sync (new_store 63929390400000000 None (Some (- 1000000000000)))
      > checkpoint_timeout (new_store 63929390400000000 None (Some (- 1000000000000)))
   \<and> fst (enqueue (new_store 63929390400000000 None (Some (- 1000000000000))) ''/queue/c''
            \<lparr>message_id = Some ''1'', body = ''one''\<rparr> 63929390400000001 63929390400000002)
       = Inl (OverflowError ''date value out of range'')
   \<and> sync_calls (snd (enqueue (new_store 63929390400000000 None (Some (- 1000000000000)))
            ''/queue/c'' \<lparr>message_id = Some ''1'', body = ''one''\<rparr>
            63929390400000001 63929390400000002)) = 0
   \<and> 63929390421000000 - last_sync (new_store 63929390400000000 None None)
      > checkpoint_timeout (new_store 63929390400000000 None None)
   \<and> dequeue (new_store 63929390400000000 None None) ''/queue/c''
        63929390421000000 63929390421000001
       = (Inr None, new_store 63929390400000000 None None)
   \<and> sync_calls (new_store 63929390400000000 None None) = 0"
  by (simp add: DbmQueue_init_new_store timedelta_seconds_def new_store_def method_defs
        Let_def)

text \<open>
  Claim C6, amended. An \<open>enqueue\<close> or \<open>dequeue\<close> that runs through its last line (an
  \<open>enqueue\<close> that returns normally, a \<open>dequeue\<close> that returns a frame) calls
  \<open>queue_metadata.sync()\<close> exactly when the operation count, this call included, is
  greater than \<open>checkpoint_operations\<close> or the clock is more than
  \<open>checkpoint_timeout\<close> past the last flush; the flush sets the count to 0 and
  \<open>_last_sync\<close> to the clock, and without a flush the count is one more and
  \<open>_last_sync\<close> is unchanged. With a count of 0, \<open>checkpoint_operations = 2\<close> and
  three such calls within the timeout, the first two do not flush and the third does.
\<close>

theorem flush_exactly_when_due:
  "(completes s (c, t, u) \<longrightarrow>
      (if opcount s + 1 > checkpoint_operations s \<or> t - last_sync s > checkpoint_timeout s
       then sync_calls (step s (c, t, u)) = Suc (sync_calls s)
            \<and> opcount (step s (c, t, u)) = 0 \<and> last_sync (step s (c, t, u)) = u
       else sync_calls (step s (c, t, u)) = sync_calls s
            \<and> opcount (step s (c, t, u)) = opcount s + 1
            \<and> last_sync (step s (c, t, u)) = last_sync s))
   \<and> (opcount s = 0 \<and> checkpoint_operations s = 2
        \<and> completes s (a1, t1, u1)
        \<and> completes (run s [(a1, t1, u1)]) (a2, t2, u2)
        \<and> completes (run s [(a1, t1, u1), (a2, t2, u2)]) (a3, t3, u3)
        \<and> t1 - last_sync s \<le> checkpoint_timeout s
        \<and> t2 - last_sync s \<le> checkpoint_timeout s
        \<and> t3 - last_sync s \<le> checkpoint_timeout s \<longrightarrow>
      sync_calls (run s [(a1, t1, u1)]) = sync_calls s
      \<and> sync_calls (run s [(a1, t1, u1), (a2, t2, u2)]) = sync_calls s
      \<and> sync_calls (run s [(a1, t1, u1), (a2, t2, u2), (a3, t3, u3)]) = Suc (sync_calls s)
      \<and> opcount (run s [(a1, t1, u1), (a2, t2, u2), (a3, t3, u3)]) = 0
      \<and> last_sync (run s [(a1, t1, u1), (a2, t2, u2), (a3, t3, u3)]) = u3)"
proof -
  have flush: "if opcount s + 1 > checkpoint_operations s \<or> t - last_sync s > checkpoint_timeout s
       then sync_calls (step s (c, t, u)) = Suc (sync_calls s)
            \<and> opcount (step s (c, t, u)) = 0 \<and> last_sync (step s (c, t, u)) = u
       else sync_calls (step s (c, t, u)) = sync_calls s
            \<and> opcount (step s (c, t, u)) = opcount s + 1
            \<and> last_sync (step s (c, t, u)) = last_sync s"
    if a: "completes s (c, t, u)"
    using completes_flush [OF a] completes_no_flush [OF a] by (simp split: if_splits)
  show ?thesis
    using flush third_call_flushes [of s a1 t1 u1 a2 t2 u2 a3 t3 u3] by blast
qed

theorem flush_exactly_when_due_witness:
  "completes (new_store 0 (Some 2) (Some 3600))
      (Enqueue ''/queue/c'' \<lparr>message_id = Some ''1'', body = ''one''\<rparr>, 3600000001, 3600000002)
   \<and> sync_calls (step (new_store 0 (Some 2) (Some 3600))
      (Enqueue ''/queue/c'' \<lparr>message_id = Some ''1'', body = ''one''\<rparr>, 3600000001, 3600000002))
       = 1
   \<and> last_sync (step (new_store 0 (Some 2) (Some 3600))
      (Enqueue ''/queue/c'' \<lparr>message_id = Some ''1'', body = ''one''\<rparr>, 3600000001, 3600000002))
       = 3600000002
   \<and> opcount (new_store 0 (Some 2) (Some 3600)) = 0
   \<and> checkpoint_operations (new_store 0 (Some 2) (Some 3600)) = 2
   \<and> completes (new_store 0 (Some 2) (Some 3600))
        (Enqueue ''/queue/c'' \<lparr>message_id = Some ''1'', body = ''one''\<rparr>, 10, 11)
   \<and> completes (run (new_store 0 (Some 2) (Some 3600))
        [(Enqueue ''/queue/c'' \<lparr>message_id = Some ''1'', body = ''one''\<rparr>, 10, 11)])
        (Dequeue ''/queue/c'', 20, 21)
   \<and> completes (run (new_store 0 (Some 2) (Some 3600))
        [(Enqueue ''/queue/c'' \<lparr>message_id = Some ''1'', body = ''one''\<rparr>, 10, 11),
         (Dequeue ''/queue/c'', 20, 21)])
        (Enqueue ''/queue/c'' \<lparr>message_id = Some ''2'', body = ''two''\<rparr>, 30, 31)
   \<and> sync_calls (run (new_store 0 (Some 2) (Some 3600))
        [(Enqueue ''/queue/c'' \<lparr>message_id = Some ''1'', body = ''one''\<rparr>, 10, 11),
         (Dequeue ''/queue/c'', 20, 21)]) = 0
   \<and> sync_calls (run (new_store 0 (Some 2) (Some 3600))
        [(Enqueue ''/queue/c'' \<lparr>message_id = Some ''1'', body = ''one''\<rparr>, 10, 11),
         (Dequeue ''/queue/c'', 20, 21),
         (Enqueue ''/queue/c'' \<lparr>message_id = Some ''2'', body = ''two''\<rparr>, 30, 31)]) = 1"
proof -
  let ?s = "new_store 0 (Some 2) (Some 3600)"
  let ?f1 = "\<lparr>message_id = Some ''1'', body = ''one''\<rparr>"
  let ?f2 = "\<lparr>message_id = Some ''2'', body = ''two''\<rparr>"
  have s: "opcount ?s = 0" "checkpoint_operations ?s = 2" "last_sync ?s = 0"
      "checkpoint_timeout ?s = 3600000000" "sync_calls ?s = 0"
    by (simp_all add: new_store_def)
  have k: "sync_safe ?s"
    by (simp add: sync_safe_def deadline_ok_def new_store_def datetime_max_def)
  have c0: "completes ?s (Enqueue ''/queue/c'' ?f1, 3600000001, 3600000002)"
    using k by (simp add: enqueue_returns)
  have c1: "completes ?s (Enqueue ''/queue/c'' ?f1, 10, 11)"
    using k by (simp add: enqueue_returns)
  have c2: "completes (run ?s [(Enqueue ''/queue/c'' ?f1, 10, 11)]) (Dequeue ''/queue/c'', 20, 21)"
    by (simp add: run_def store_defs method_defs Let_def)
  have c3: "completes (run ?s [(Enqueue ''/queue/c'' ?f1, 10, 11), (Dequeue ''/queue/c'', 20, 21)])
              (Enqueue ''/queue/c'' ?f2, 30, 31)"
    by (simp add: run_def new_store_def method_defs Let_def)
  show ?thesis
    using s c0 c1 c2 c3
      flush_exactly_when_due [of ?s "Enqueue ''/queue/c'' ?f1" 3600000001 3600000002
        "Enqueue ''/queue/c'' ?f1" 10 11 "Dequeue ''/queue/c''" 20 21
        "Enqueue ''/queue/c'' ?f2" 30 31]
    by simp
qed

subsection \<open>Pending ids and their payloads\<close>

lemma last_notin_butlast: "distinct xs \<Longrightarrow> xs \<noteq> [] \<Longrightarrow> last xs \<notin> set (butlast xs)"
  by (cases xs rule: rev_cases) simp_all

lemma archive_okD:
  "archive_ok s \<Longrightarrow> queue_metadata s d = Some e \<Longrightarrow> m \<in> set (frames e) \<Longrightarrow>
   \<exists>f. frame_store s m = Some f"
  unfolding archive_ok_def by blast

lemma enqueue_store_ok:
  assumes a: "archive_ok s" and u: "ids_unique s" and f: "fresh s (Enqueue d fr, t1, t2)"
  shows "archive_ok (snd (enqueue s d fr t1 t2)) \<and> ids_unique (snd (enqueue s d fr t1 t2))"
proof (cases "message_id fr = None \<or> message_id fr = Some []")
  case True
  then show ?thesis using a u by (simp add: enqueue_rejected)
next
  case False
  then obtain m where m: "message_id fr = Some m" "m \<noteq> []" by auto
  then have "not_pending s m" using f by simp
  then have np: "m \<notin> set (frames e)" if "queue_metadata s d' = Some e" for d' e
    using that unfolding not_pending_def by blast
  note md = enqueue_metadata [OF m, of s d t1 t2]
  note fs = enqueue_frame_store [OF m, of s d t1 t2]
  have a': "archive_ok (snd (enqueue s d fr t1 t2))"
    unfolding archive_ok_def md fs using a
    by (auto simp: archive_ok_def split: option.splits if_splits)
  have u1: "distinct (frames e')"
    if "queue_metadata (snd (enqueue s d fr t1 t2)) d' = Some e'" for d' e'
    using that u np unfolding md
    by (auto simp: ids_unique_def split: option.splits if_splits)
  have u2: "set (frames e1) \<inter> set (frames e2) = {}"
    if "d1 \<noteq> d2" "queue_metadata (snd (enqueue s d fr t1 t2)) d1 = Some e1"
       "queue_metadata (snd (enqueue s d fr t1 t2)) d2 = Some e2" for d1 d2 e1 e2
  proof -
    have old: "set (frames x) \<inter> set (frames y) = {}"
      if "c1 \<noteq> c2" "queue_metadata s c1 = Some x" "queue_metadata s c2 = Some y" for c1 c2 x y
      using u that by (simp add: ids_unique_def)
    show ?thesis
    proof (cases "d1 = d")
      case True
      then have e2: "queue_metadata s d2 = Some e2" using that unfolding md by simp
      show ?thesis
      proof (cases "queue_metadata s d")
        case None
        then have "frames e1 = [m]" using that True unfolding md by auto
        then show ?thesis using np [OF e2] by simp
      next
        case (Some e)
        then have "frames e1 = m # frames e" using that True unfolding md by auto
        then show ?thesis using np [OF e2] old [OF _ Some e2] that(1) True by auto
      qed
    next
      case False
      then have e1: "queue_metadata s d1 = Some e1" using that unfolding md by simp
      show ?thesis
      proof (cases "d2 = d")
        case True
        show ?thesis
        proof (cases "queue_metadata s d")
          case None
          then have "frames e2 = [m]" using that True unfolding md by auto
          then show ?thesis using np [OF e1] by simp
        next
          case (Some e)
          then have "frames e2 = m # frames e" using that True unfolding md by auto
          then show ?thesis using np [OF e1] old [OF _ e1 Some] False by auto
        qed
      next
        case d2: False
        then have "queue_metadata s d2 = Some e2" using that unfolding md by simp
        then show ?thesis using old [OF that(1) e1] by simp
      qed
    qed
  qed
  have "ids_unique (snd (enqueue s d fr t1 t2))"
    unfolding ids_unique_def using u1 u2 by blast
  with a' show ?thesis by simp
qed

lemma dequeue_store_ok:
  assumes a: "archive_ok s" and u: "ids_unique s"
  shows "archive_ok (snd (dequeue s d t1 t2)) \<and> ids_unique (snd (dequeue s d t1 t2))"
proof (cases "queue_metadata s d = None \<or> (\<exists>e. queue_metadata s d = Some e \<and> frames e = [])")
  case True
  then show ?thesis using a u by (simp add: dequeue_nothing)
next
  case False
  then obtain e where e: "queue_metadata s d = Some e" "frames e \<noteq> []" by auto
  let ?x = "last (frames e)"
  have "?x \<in> set (frames e)" using e(2) by simp
  then obtain f where f: "frame_store s ?x = Some f"
    using archive_okD [OF a e(1)] by blast
  have md: "queue_metadata (snd (dequeue s d t1 t2)) =
        (queue_metadata s)(d \<mapsto> e\<lparr>frames := butlast (frames e), dequeued := dequeued e + 1\<rparr>)"
    using e by (simp add: dequeue_metadata)
  note fs = dequeue_frame_store [OF e f, of t1 t2]
  have de: "distinct (frames e)" using u e(1) by (simp add: ids_unique_def)
  have old: "set (frames x) \<inter> set (frames y) = {}"
    if "c1 \<noteq> c2" "queue_metadata s c1 = Some x" "queue_metadata s c2 = Some y" for c1 c2 x y
    using u that by (simp add: ids_unique_def)
  have a1: "frame_store (snd (dequeue s d t1 t2)) m \<noteq> None"
    if "queue_metadata (snd (dequeue s d t1 t2)) d' = Some e'" "m \<in> set (frames e')" for d' e' m
  proof (cases "d' = d")
    case True
    then have "frames e' = butlast (frames e)" using that(1) unfolding md by auto
    then have "m \<in> set (butlast (frames e))" using that(2) by simp
    then have "m \<noteq> ?x" and "m \<in> set (frames e)"
      using last_notin_butlast [OF de e(2)] by (auto dest: in_set_butlastD)
    then show ?thesis unfolding fs using archive_okD [OF a e(1), of m] by auto
  next
    case False
    then have e': "queue_metadata s d' = Some e'" using that(1) unfolding md by simp
    have "?x \<in> set (frames e)" using e(2) by simp
    then have "m \<noteq> ?x" using old [OF False e' e(1)] that(2) by auto
    then show ?thesis unfolding fs using archive_okD [OF a e' that(2)] by auto
  qed
  have u1: "distinct (frames e')"
    if "queue_metadata (snd (dequeue s d t1 t2)) d' = Some e'" for d' e'
    using that u de unfolding md
    by (auto simp: ids_unique_def distinct_butlast split: if_splits)
  have sub: "set (frames e') \<subseteq> set (frames e0)"
    if "queue_metadata (snd (dequeue s d t1 t2)) d' = Some e'" "queue_metadata s d' = Some e0"
    for d' e' e0
    using that e(1) unfolding md by (auto dest: in_set_butlastD split: if_splits)
  have ex: "\<exists>e0. queue_metadata s d' = Some e0"
    if "queue_metadata (snd (dequeue s d t1 t2)) d' = Some e'" for d' e'
    using that e(1) unfolding md by (auto split: if_splits)
  have u2: "set (frames e1) \<inter> set (frames e2) = {}"
    if ne: "d1 \<noteq> d2" and q1: "queue_metadata (snd (dequeue s d t1 t2)) d1 = Some e1"
      and q2: "queue_metadata (snd (dequeue s d t1 t2)) d2 = Some e2" for d1 d2 e1 e2
  proof -
    obtain o1 o2 where o: "queue_metadata s d1 = Some o1" "queue_metadata s d2 = Some o2"
      using ex [OF q1] ex [OF q2] by auto
    show ?thesis
      using old [OF ne o] sub [OF q1 o(1)] sub [OF q2 o(2)] by blast
  qed
  have "archive_ok (snd (dequeue s d t1 t2))"
    unfolding archive_ok_def using a1 by blast
  moreover have "ids_unique (snd (dequeue s d t1 t2))"
    unfolding ids_unique_def using u1 u2 by blast
  ultimately show ?thesis by simp
qed

lemma step_store_ok:
  assumes "archive_ok s" and "ids_unique s" and "fresh s x"
  shows "archive_ok (step s x) \<and> ids_unique (step s x)"
proof (cases x rule: call_cases)
  case (Enq d fr t1 t2)
  then show ?thesis using enqueue_store_ok [of s d fr t1 t2] assms by simp
next
  case (Deq d t1 t2)
  then show ?thesis using dequeue_store_ok [of s d t1 t2] assms by simp
next
  case (Has d t1 t2)
  then show ?thesis using assms by simp
next
  case (Siz d t1 t2)
  then show ?thesis using assms by simp
qed

lemma run_store_ok:
  "archive_ok s \<Longrightarrow> ids_unique s \<Longrightarrow> no_reuse s ops \<Longrightarrow>
   archive_ok (run s ops) \<and> ids_unique (run s ops)"
proof (induction ops arbitrary: s)
  case Nil
  then show ?case by (simp add: run_Nil)
next
  case (Cons x xs)
  have "archive_ok (step s x) \<and> ids_unique (step s x)"
    using step_store_ok [of s x] Cons.prems by simp
  then show ?case using Cons.IH [of "step s x"] Cons.prems by (simp add: run_Cons)
qed

text \<open>
  Claim C7 does not hold after every sequence of calls, since nothing stops two live
  messages from sharing an id. The id \<open>x\<close> is enqueued to \<open>/queue/a\<close> and to
  \<open>/queue/b\<close>; the \<open>dequeue\<close> on \<open>/queue/a\<close> deletes the one payload stored under
  \<open>x\<close>; \<open>x\<close> is still pending on \<open>/queue/b\<close> and has no payload.
\<close>

theorem pending_id_without_payload:
  "queue_metadata (run (new_store 0 None None)
      [(Enqueue ''/queue/a'' \<lparr>message_id = Some ''x'', body = ''one''\<rparr>, 1, 2),
       (Enqueue ''/queue/b'' \<lparr>message_id = Some ''x'', body = ''two''\<rparr>, 3, 4),
       (Dequeue ''/queue/a'', 5, 6)]) ''/queue/b''
     = Some \<lparr>frames = [''x''], enqueued = 1, dequeued = 0, size_field = 0\<rparr>
   \<and> frame_store (run (new_store 0 None None)
      [(Enqueue ''/queue/a'' \<lparr>message_id = Some ''x'', body = ''one''\<rparr>, 1, 2),
       (Enqueue ''/queue/b'' \<lparr>message_id = Some ''x'', body = ''two''\<rparr>, 3, 4),
       (Dequeue ''/queue/a'', 5, 6)]) ''x'' = None
   \<and> \<not> archive_ok (run (new_store 0 None None)
      [(Enqueue ''/queue/a'' \<lparr>message_id = Some ''x'', body = ''one''\<rparr>, 1, 2),
       (Enqueue ''/queue/b'' \<lparr>message_id = Some ''x'', body = ''two''\<rparr>, 3, 4),
       (Dequeue ''/queue/a'', 5, 6)])"
proof -
  let ?s = "run (new_store 0 None None)
      [(Enqueue ''/queue/a'' \<lparr>message_id = Some ''x'', body = ''one''\<rparr>, 1, 2),
       (Enqueue ''/queue/b'' \<lparr>message_id = Some ''x'', body = ''two''\<rparr>, 3, 4),
       (Dequeue ''/queue/a'', 5, 6)]"
  have m: "queue_metadata ?s ''/queue/b''
             = Some \<lparr>frames = [''x''], enqueued = 1, dequeued = 0, size_field = 0\<rparr>"
    by (simp add: run_def new_store_def method_defs Let_def)
  have f: "frame_store ?s ''x'' = None"
    by (simp add: run_def new_store_def method_defs Let_def)
  have "\<not> archive_ok ?s"
  proof
    assume "archive_ok ?s"
    from archive_okD [OF this m, of "''x''"] f show False by simp
  qed
  with m f show ?thesis by simp
qed

text \<open>
  Claim C7, amended. Start from a store in which every pending id has a payload and no id
  is pending twice (a new store is one), and run any sequence of calls in which no
  \<open>enqueue\<close> carries an id that is pending on some destination at that moment. Then
  every id pending on any destination has a payload in the frame store; and a
  \<open>dequeue\<close> on a destination with pending ids, in that one call and whatever it
  returns or raises, deletes the payload of the oldest id and leaves that id pending
  nowhere.
\<close>

theorem pending_ids_archived:
  assumes "archive_ok s" and "ids_unique s" and "no_reuse s ops"
  shows "(queue_metadata (run s ops) d0 = Some e0 \<and> m \<in> set (frames e0) \<longrightarrow>
            frame_store (run s ops) m \<noteq> None)
       \<and> (queue_metadata (run s ops) d = Some e \<and> frames e \<noteq> [] \<longrightarrow>
            frame_store (run s ops) (last (frames e)) \<noteq> None
            \<and> frame_store (snd (dequeue (run s ops) d t1 t2)) (last (frames e)) = None
            \<and> (\<forall>d' e'. queue_metadata (snd (dequeue (run s ops) d t1 t2)) d' = Some e' \<longrightarrow>
                  last (frames e) \<notin> set (frames e')))"
proof -
  let ?r = "run s ops"
  have ok: "archive_ok ?r" "ids_unique ?r"
    using run_store_ok [OF assms] by simp_all
  have p1: "frame_store ?r m \<noteq> None"
    if "queue_metadata ?r d0 = Some e0" "m \<in> set (frames e0)"
    using archive_okD [OF ok(1) that] by auto
  have p2: "frame_store ?r (last (frames e)) \<noteq> None
            \<and> frame_store (snd (dequeue ?r d t1 t2)) (last (frames e)) = None
            \<and> (\<forall>d' e'. queue_metadata (snd (dequeue ?r d t1 t2)) d' = Some e' \<longrightarrow>
                  last (frames e) \<notin> set (frames e'))"
    if e: "queue_metadata ?r d = Some e" and ne: "frames e \<noteq> []"
  proof -
    let ?x = "last (frames e)"
    have x: "?x \<in> set (frames e)" using ne by simp
    obtain f where f: "frame_store ?r ?x = Some f"
      using archive_okD [OF ok(1) e x] by blast
    have gone: "frame_store (snd (dequeue ?r d t1 t2)) ?x = None"
      unfolding dequeue_frame_store [OF e ne f, of t1 t2] by simp
    have after: "archive_ok (snd (dequeue ?r d t1 t2))"
      using dequeue_store_ok [OF ok, of d t1 t2] by simp
    have "?x \<notin> set (frames e')"
      if q: "queue_metadata (snd (dequeue ?r d t1 t2)) d' = Some e'" for d' e'
    proof
      assume "?x \<in> set (frames e')"
      from archive_okD [OF after q this] gone show False by simp
    qed
    then show ?thesis using f gone by simp
  qed
  show ?thesis using p1 p2 by blast
qed

theorem pending_ids_archived_witness:
  "archive_ok (new_store 0 None None) \<and> ids_unique (new_store 0 None None)
   \<and> no_reuse (new_store 0 None None)
       [(Enqueue ''/queue/a'' \<lparr>message_id = Some ''1'', body = ''one''\<rparr>, 1, 2),
        (Enqueue ''/queue/b'' \<lparr>message_id = Some ''2'', body = ''two''\<rparr>, 3, 4),
        (Dequeue ''/queue/a'', 5, 6),
        (Enqueue ''/queue/a'' \<lparr>message_id = Some ''1'', body = ''again''\<rparr>, 7, 8)]
   \<and> queue_metadata (run (new_store 0 None None)
       [(Enqueue ''/queue/a'' \<lparr>message_id = Some ''1'', body = ''one''\<rparr>, 1, 2),
        (Enqueue ''/queue/b'' \<lparr>message_id = Some ''2'', body = ''two''\<rparr>, 3, 4),
        (Dequeue ''/queue/a'', 5, 6),
        (Enqueue ''/queue/a'' \<lparr>message_id = Some ''1'', body = ''again''\<rparr>, 7, 8)]) ''/queue/a''
      = Some \<lparr>frames = [''1''], enqueued = 2, dequeued = 1, size_field = 0\<rparr>
   \<and> frame_store (run (new_store 0 None None)
       [(Enqueue ''/queue/a'' \<lparr>message_id = Some ''1'', body = ''one''\<rparr>, 1, 2),
        (Enqueue ''/queue/b'' \<lparr>message_id = Some ''2'', body = ''two''\<rparr>, 3, 4),
        (Dequeue ''/queue/a'', 5, 6),
        (Enqueue ''/queue/a'' \<lparr>message_id = Some ''1'', body = ''again''\<rparr>, 7, 8)]) ''1'' \<noteq> None
   \<and> queue_metadata (run (new_store 0 None None)
       [(Enqueue ''/queue/a'' \<lparr>message_id = Some ''1'', body = ''one''\<rparr>, 1, 2),
        (Enqueue ''/queue/b'' \<lparr>message_id = Some ''2'', body = ''two''\<rparr>, 3, 4),
        (Dequeue ''/queue/a'', 5, 6),
        (Enqueue ''/queue/a'' \<lparr>message_id = Some ''1'', body = ''again''\<rparr>, 7, 8)]) ''/queue/b''
      = Some \<lparr>frames = [''2''], enqueued = 1, dequeued = 0, size_field = 0\<rparr>
   \<and> frame_store (snd (dequeue (run (new_store 0 None None)
       [(Enqueue ''/queue/a'' \<lparr>message_id = Some ''1'', body = ''one''\<rparr>, 1, 2),
        (Enqueue ''/queue/b'' \<lparr>message_id = Some ''2'', body = ''two''\<rparr>, 3, 4),
        (Dequeue ''/queue/a'', 5, 6),
        (Enqueue ''/queue/a'' \<lparr>message_id = Some ''1'', body = ''again''\<rparr>, 7, 8)])
        ''/queue/b'' 9 10)) ''2'' = None"
proof -
  let ?s = "new_store 0 None None"
  let ?ops = "[(Enqueue ''/queue/a'' \<lparr>message_id = Some ''1'', body = ''one''\<rparr>, 1, 2),
        (Enqueue ''/queue/b'' \<lparr>message_id = Some ''2'', body = ''two''\<rparr>, 3, 4),
        (Dequeue ''/queue/a'', 5, 6),
        (Enqueue ''/queue/a'' \<lparr>message_id = Some ''1'', body = ''again''\<rparr>, 7, 8)]"
  have h1: "archive_ok ?s" by (simp add: archive_ok_def new_store_metadata)
  have h2: "ids_unique ?s" by (simp add: ids_unique_def new_store_metadata)
  have h3: "no_reuse ?s ?ops"
    by (simp add: not_pending_def new_store_def method_defs Let_def)
  have h4: "queue_metadata (run ?s ?ops) ''/queue/a''
      = Some \<lparr>frames = [''1''], enqueued = 2, dequeued = 1, size_field = 0\<rparr>"
    by (simp add: run_def new_store_def method_defs Let_def)
  have h5: "queue_metadata (run ?s ?ops) ''/queue/b''
      = Some \<lparr>frames = [''2''], enqueued = 1, dequeued = 0, size_field = 0\<rparr>"
    by (simp add: run_def new_store_def method_defs Let_def)
  show ?thesis
    using h1 h2 h3 h4 h5
      pending_ids_archived [OF h1 h2 h3, of "''/queue/a''"
        "\<lparr>frames = [''1''], enqueued = 2, dequeued = 1, size_field = 0\<rparr>" "''1''"
        "''/queue/b''" "\<lparr>frames = [''2''], enqueued = 1, dequeued = 0, size_field = 0\<rparr>" 9 10]
    by simp
qed

subsection \<open>The data directory\<close>

lemma and_or_nat: "(x::nat) AND (a OR b) = (x AND a) OR (x AND b)"
  by (rule bit_eqI) (auto simp: bit_and_iff bit_or_iff)

lemma and_and_nat: "(x::nat) AND a = a \<Longrightarrow> b AND a = b \<Longrightarrow> x AND b = b"
  by (metis and.assoc and.commute)

lemma and6: "(x AND (6::nat)) = 6 \<longleftrightarrow> (x AND 4) = 4 \<and> (x AND 2) = 2"
proof
  assume a: "x AND 6 = 6"
  have "x AND 4 = 4" by (rule and_and_nat [OF a]) simp
  moreover have "x AND 2 = 2" by (rule and_and_nat [OF a]) simp
  ultimately show "x AND 4 = 4 \<and> x AND 2 = 2" by simp
next
  assume a: "x AND 4 = 4 \<and> x AND 2 = 2"
  have "x AND 6 = (x AND 4) OR (x AND 2)" using and_or_nat [of x 4 2] by simp
  also have "\<dots> = 6" using a by simp
  finally show "x AND 6 = 6" .
qed

lemma os_access_both:
  "os_access env p (W_OK OR R_OK) = (os_access env p R_OK \<and> os_access env p W_OK)"
  using and6 [of "path_perms env p"] by (auto simp: os_access_def W_OK_def R_OK_def)

text \<open>
  What the three tests of \<open>make_dbm\<close> do catch: a parameter that is absent or empty,
  a path at which nothing exists, a path that is not both readable and writable. Then
  \<open>ConfigError\<close> is raised before \<open>DbmQueue\<close> is constructed, and no shelf is opened.
\<close>

lemma make_dbm_config_error:
  assumes "store_dbm_data_dir cfg = None \<or> store_dbm_data_dir cfg = Some []
           \<or> (store_dbm_data_dir cfg = Some dd
               \<and> (\<not> os_path_exists env dd
                    \<or> \<not> (os_access env dd R_OK \<and> os_access env dd W_OK)))"
  shows "(\<exists>msg. fst (make_dbm cfg env now) = Inl (ConfigError msg))
         \<and> snd (make_dbm cfg env now) = env"
  using assms by (auto simp: make_dbm_def os_access_both)

text \<open>
  Claim C8 says that construction fails with a configuration error when the directory
  does not exist. The test at line 45 is \<open>os.path.exists\<close>, which is true of a regular
  file, although its message reads \<open>DBM directory does not exist\<close>. For a data
  directory parameter that names a readable and writable regular file the three tests
  pass, \<open>DbmQueue\<close> is constructed, and \<open>shelve.open\<close> at line 121 raises the dbm
  library's error instead of \<open>ConfigError\<close>.
\<close>

theorem make_dbm_regular_file:
  "path_kind (empty_env\<lparr>path_kind := (\<lambda>p. if p = ''/data'' then RegularFile else Absent)\<rparr>)
      ''/data'' = RegularFile
   \<and> os_access (empty_env\<lparr>path_kind := (\<lambda>p. if p = ''/data'' then RegularFile else Absent)\<rparr>)
      ''/data'' (W_OK OR R_OK)
   \<and> fst (make_dbm \<lparr>store_dbm_data_dir = Some ''/data'',
               store_dbm_checkpoint_operations = None, store_dbm_checkpoint_timeout = None\<rparr>
          (empty_env\<lparr>path_kind := (\<lambda>p. if p = ''/data'' then RegularFile else Absent)\<rparr>)
          63929390400000000)
       = Inl (DbmError ''/data/metadata'')"
  by (simp add: make_dbm_def DbmQueue_init_def shelve_open_metadata_def empty_env_def
        os_path_exists_def os_access_def os_path_join_def timedelta_seconds_def
        W_OK_def R_OK_def Let_def)

subsection \<open>The \<open>size\<close> field\<close>

lemma enqueue_size_field:
  "size_field e' = (case queue_metadata s d of None \<Rightarrow> 0 | Some e \<Rightarrow> size_field e)"
  if "queue_metadata (snd (enqueue s d' fr t1 t2)) d = Some e'"
proof (cases "message_id fr = None \<or> message_id fr = Some []")
  case True
  then show ?thesis using that by (simp add: enqueue_rejected split: option.splits)
next
  case False
  then obtain m where m: "message_id fr = Some m" "m \<noteq> []" by auto
  show ?thesis
    using that unfolding enqueue_metadata [OF m]
    by (auto split: option.splits if_splits)
qed

lemma dequeue_size_field:
  "queue_metadata (snd (dequeue s d' t1 t2)) d = Some e' \<Longrightarrow>
   size_field e' = (case queue_metadata s d of None \<Rightarrow> 0 | Some e \<Rightarrow> size_field e)"
  by (auto simp: dequeue_metadata split: option.splits if_splits)

lemma step_size_field:
  "queue_metadata (step s x) d = Some e' \<Longrightarrow>
   size_field e' = (case queue_metadata s d of None \<Rightarrow> 0 | Some e \<Rightarrow> size_field e)"
  by (cases x rule: call_cases) (auto simp: enqueue_size_field dequeue_size_field)

lemma enqueue_keeps_entry:
  "queue_metadata (snd (enqueue s d' fr t1 t2)) d \<noteq> None" if "queue_metadata s d \<noteq> None"
proof (cases "message_id fr = None \<or> message_id fr = Some []")
  case True
  then show ?thesis using that by (simp add: enqueue_rejected)
next
  case False
  then obtain m where m: "message_id fr = Some m" "m \<noteq> []" by auto
  show ?thesis
    using that unfolding enqueue_metadata [OF m]
    by (auto split: option.splits if_splits)
qed

lemma dequeue_keeps_entry:
  "queue_metadata s d \<noteq> None \<Longrightarrow> queue_metadata (snd (dequeue s d' t1 t2)) d \<noteq> None"
  by (auto simp: dequeue_metadata split: option.splits if_splits)

lemma step_keeps_entry:
  "queue_metadata s d \<noteq> None \<Longrightarrow> queue_metadata (step s x) d \<noteq> None"
  by (cases x rule: call_cases) (simp_all add: enqueue_keeps_entry dequeue_keeps_entry)

lemma run_size_field:
  "queue_metadata (run s ops) d = Some e' \<Longrightarrow>
   size_field e' = (case queue_metadata s d of None \<Rightarrow> 0 | Some e \<Rightarrow> size_field e)"
proof (induction ops arbitrary: s e')
  case Nil
  then show ?case by (simp add: run_Nil)
next
  case (Cons x xs)
  from Cons.prems have r: "queue_metadata (run (step s x) xs) d = Some e'"
    by (simp add: run_Cons)
  have a: "size_field e' =
        (case queue_metadata (step s x) d of None \<Rightarrow> 0 | Some e \<Rightarrow> size_field e)"
    by (rule Cons.IH [OF r])
  show ?case
  proof (cases "queue_metadata (step s x) d")
    case None
    then have "queue_metadata s d = None"
      using step_keeps_entry [of s d x] by (cases "queue_metadata s d") simp_all
    with a None show ?thesis by simp
  next
    case (Some e1)
    with a step_size_field [OF Some] show ?thesis by simp
  qed
qed

text \<open>
  Claim C9. After any sequence of \<open>enqueue\<close>, \<open>dequeue\<close>, \<open>has_frames\<close> and
  \<open>size\<close> calls, the \<open>size\<close> field of an entry is what it was before the sequence, and
  0 when the entry was created during the sequence; and \<open>size\<close> returns the length of
  the deque whatever the field holds.
\<close>

theorem size_field_never_updated:
  "(queue_metadata (run s ops) d = Some e' \<longrightarrow>
      size_field e' = (case queue_metadata s d of None \<Rightarrow> 0 | Some e \<Rightarrow> size_field e))
   \<and> size_queue (s\<lparr>queue_metadata := (queue_metadata s)(d \<mapsto> e\<lparr>size_field := n\<rparr>)\<rparr>) d
       = int (length (frames e))"
  using run_size_field [of s ops d e'] by (simp add: size_queue_def)

theorem size_field_never_updated_witness:
  "queue_metadata (run (new_store 0 None None)
        [(Enqueue ''/queue/a'' \<lparr>message_id = Some ''1'', body = ''one''\<rparr>, 1, 2),
         (Enqueue ''/queue/a'' \<lparr>message_id = Some ''2'', body = ''two''\<rparr>, 3, 4),
         (Size ''/queue/a'', 0, 0),
         (Dequeue ''/queue/a'', 5, 6)]) ''/queue/a''
       = Some \<lparr>frames = [''2''], enqueued = 2, dequeued = 1, size_field = 0\<rparr>
   \<and> size_field \<lparr>frames = [''2''], enqueued = 2, dequeued = 1, size_field = 0\<rparr>
       = (case queue_metadata (new_store 0 None None) ''/queue/a'' of
            None \<Rightarrow> 0 | Some e \<Rightarrow> size_field e)"
proof -
  have h: "queue_metadata (run (new_store 0 None None)
        [(Enqueue ''/queue/a'' \<lparr>message_id = Some ''1'', body = ''one''\<rparr>, 1, 2),
         (Enqueue ''/queue/a'' \<lparr>message_id = Some ''2'', body = ''two''\<rparr>, 3, 4),
         (Size ''/queue/a'', 0, 0),
         (Dequeue ''/queue/a'', 5, 6)]) ''/queue/a''
       = Some \<lparr>frames = [''2''], enqueued = 2, dequeued = 1, size_field = 0\<rparr>"
    by (simp add: run_def store_defs method_defs Let_def)
  show ?thesis
    using h size_field_never_updated [of "new_store 0 None None"
        "[(Enqueue ''/queue/a'' \<lparr>message_id = Some ''1'', body = ''one''\<rparr>, 1, 2),
         (Enqueue ''/queue/a'' \<lparr>message_id = Some ''2'', body = ''two''\<rparr>, 3, 4),
         (Size ''/queue/a'', 0, 0),
         (Dequeue ''/queue/a'', 5, 6)]" "''/queue/a''"
        "\<lparr>frames = [''2''], enqueued = 2, dequeued = 1, size_field = 0\<rparr>"]
    by (simp add: new_store_metadata)
qed

subsection \<open>Two frames with one message id\<close>

text \<open>
  Claim C10. Message ids are not checked for uniqueness. Two frames with the id \<open>x\<close>
  are both accepted; the first \<open>dequeue\<close> returns the second frame, whose payload
  replaced the first, and deletes it; the second \<open>dequeue\<close> finds the id still pending
  and raises \<open>KeyError\<close> on the frame store.
\<close>

theorem duplicate_message_id_key_error:
  "fst (enqueue (new_store 0 None None) ''/queue/a'' \<lparr>message_id = Some ''x'', body = ''one''\<rparr> 1 2)
     = Inr ()
   \<and> fst (enqueue (run (new_store 0 None None)
            [(Enqueue ''/queue/a'' \<lparr>message_id = Some ''x'', body = ''one''\<rparr>, 1, 2)])
          ''/queue/a'' \<lparr>message_id = Some ''x'', body = ''two''\<rparr> 3 4) = Inr ()
   \<and> fst (dequeue (run (new_store 0 None None)
            [(Enqueue ''/queue/a'' \<lparr>message_id = Some ''x'', body = ''one''\<rparr>, 1, 2),
             (Enqueue ''/queue/a'' \<lparr>message_id = Some ''x'', body = ''two''\<rparr>, 3, 4)])
          ''/queue/a'' 5 6) = Inr (Some \<lparr>message_id = Some ''x'', body = ''two''\<rparr>)
   \<and> fst (dequeue (run (new_store 0 None None)
            [(Enqueue ''/queue/a'' \<lparr>message_id = Some ''x'', body = ''one''\<rparr>, 1, 2),
             (Enqueue ''/queue/a'' \<lparr>message_id = Some ''x'', body = ''two''\<rparr>, 3, 4),
             (Dequeue ''/queue/a'', 5, 6)])
          ''/queue/a'' 7 8) = Inl (KeyError ''x'')"
  by (simp add: run_def store_defs method_defs Let_def)

end
